theory Spec2Isabelle
  imports Main "HOL-Library.Word"
begin

unbundle bit_operations_syntax

section \<open>Machine types and Vulkan handles\<close>

text \<open>
  The sources use \<open>uint32_t\<close> for device ordinals, counts and pixel coordinates and
  \<open>uint64_t\<close> for frame ids; both are modelled as words, so that every \<open>+\<close>, \<open>-\<close>
  and \<open>*\<close> wraps as in C++. Vulkan's non-dispatchable and dispatchable handles are 64-bit
  values here; \<open>VK_NULL_HANDLE\<close> is the zero handle.
\<close>

type_synonym u32 = "32 word"
type_synonym u64 = "64 word"
type_synonym vk_handle = "64 word"

definition VK_NULL_HANDLE :: vk_handle where
  "VK_NULL_HANDLE = 0"

definition UINT32_MAX :: u32 where
  "UINT32_MAX = 0xFFFFFFFF"

section \<open>The device registry (vk_multigpu_device.h)\<close>

text \<open>
  \<open>struct VkGpuDevice\<close>. The two opaque property blocks (\<open>properties\<close>,
  \<open>memoryProperties\<close>) are only copied from the driver and never read by the code, and are
  left out.
\<close>

record VkGpuDevice =
  deviceId :: u32
  physicalDevice :: vk_handle
  logicalDevice :: vk_handle
  graphicsQueue :: vk_handle
  computeQueue :: vk_handle
  transferQueue :: vk_handle
  commandPool :: vk_handle
  deviceName :: string
  graphicsQueueFamilyIndex :: u32
  computeQueueFamilyIndex :: u32
  transferQueueFamilyIndex :: u32

text \<open>The data members of \<open>class VkMultiGpuManager\<close> (the mutex carries no data).\<close>

record VkMultiGpuManager =
  gpuDevices :: "VkGpuDevice list"
  vkInstance :: vk_handle

text \<open>\<open>VkMultiGpuManager::VkMultiGpuManager()\<close>\<close>

definition VkMultiGpuManager_new :: VkMultiGpuManager where
  "VkMultiGpuManager_new = \<lparr>gpuDevices = [], vkInstance = VK_NULL_HANDLE\<rparr>"

text \<open>\<open>GetActiveGpuCount\<close>: \<open>static_cast<uint32_t>(gpuDevices.size())\<close>.\<close>

definition GetActiveGpuCount :: "VkMultiGpuManager \<Rightarrow> u32" where
  "GetActiveGpuCount m = word_of_nat (length (gpuDevices m))"

section \<open>The frame distributor (vk_multigpu_support.cpp)\<close>

datatype FrameDistributionMode =
  SPLIT_FRAME_HORIZONTAL
  | SPLIT_FRAME_VERTICAL
  | SPLIT_FRAME_QUADRANTS
  | AFR_ALTERNATING
  | SFR_OPTIMIZED

record FrameRegion =
  offsetX :: u32
  offsetY :: u32
  width :: u32
  height :: u32
  gpuIndex :: u32

text \<open>
  The data members of \<open>class VkFrameDistributor\<close>. The \<open>gpuManager\<close> pointer is not a
  field: every function that dereferences it takes the manager's state as an argument.
\<close>

record VkFrameDistributor =
  distributionMode :: FrameDistributionMode
  frameWidth :: u32
  frameHeight :: u32
  cachedRegions :: "FrameRegion list"

definition VkFrameDistributor_new :: VkFrameDistributor where
  "VkFrameDistributor_new =
     \<lparr>distributionMode = SPLIT_FRAME_HORIZONTAL, frameWidth = 0, frameHeight = 0,
      cachedRegions = []\<rparr>"

definition SetDistributionMode :: "VkFrameDistributor \<Rightarrow> FrameDistributionMode \<Rightarrow> VkFrameDistributor" where
  "SetDistributionMode d mode = d\<lparr>distributionMode := mode, cachedRegions := []\<rparr>"

definition SetFrameResolution :: "VkFrameDistributor \<Rightarrow> u32 \<Rightarrow> u32 \<Rightarrow> VkFrameDistributor" where
  "SetFrameResolution d w h = d\<lparr>frameWidth := w, frameHeight := h, cachedRegions := []\<rparr>"

text \<open>
  An unsigned division by zero is undefined behaviour in C++ (a trap on the usual
  targets). The model makes it a value: the only way a region computation can fail.
\<close>

datatype fault = DivisionByZero

text \<open>The body of the loop of \<open>ComputeHorizontalSplit\<close>: the region of device \<open>i\<close>.\<close>

definition horizontal_region :: "u32 \<Rightarrow> u32 \<Rightarrow> u32 \<Rightarrow> u32 \<Rightarrow> u32 \<Rightarrow> FrameRegion" where
  "horizontal_region i gpuCount regionWidth fw fh =
     (let ox = i * regionWidth in
      \<lparr>offsetX = ox, offsetY = 0,
       width = (if i = gpuCount - 1 then fw - ox else regionWidth),
       height = fh, gpuIndex = i\<rparr>)"

function horizontal_loop :: "u32 \<Rightarrow> u32 \<Rightarrow> u32 \<Rightarrow> u32 \<Rightarrow> u32 \<Rightarrow> FrameRegion list \<Rightarrow> FrameRegion list" where
  "horizontal_loop i gpuCount regionWidth fw fh regions =
     (if i < gpuCount
      then horizontal_loop (i + 1) gpuCount regionWidth fw fh
             (regions @ [horizontal_region i gpuCount regionWidth fw fh])
      else regions)"
  by pat_completeness auto
termination
proof (relation "measure (\<lambda>(i, gpuCount, _). unat gpuCount - unat i)")
  show "wf (measure (\<lambda>(i, gpuCount, _). unat gpuCount - unat i))"
    by simp
next
  fix i gpuCount regionWidth fw fh :: u32 and regions :: "FrameRegion list"
  assume "i < gpuCount"
  then have "unat (i + 1) = Suc (unat i)" and "unat i < unat gpuCount"
    by unat_arith+
  then show "((i + 1, gpuCount, regionWidth, fw, fh,
               regions @ [horizontal_region i gpuCount regionWidth fw fh]),
              (i, gpuCount, regionWidth, fw, fh, regions))
             \<in> measure (\<lambda>(i, gpuCount, _). unat gpuCount - unat i)"
    by simp
qed

declare horizontal_loop.simps [simp del]

text \<open>
  \<open>ComputeHorizontalSplit\<close>. The source divides \<open>frameWidth / gpuCount\<close> with no
  check before it; the test for zero below is the division's own trap, not a guard of the
  code.
\<close>

definition ComputeHorizontalSplit :: "VkMultiGpuManager \<Rightarrow> VkFrameDistributor \<Rightarrow> fault + FrameRegion list" where
  "ComputeHorizontalSplit m d =
     (let gpuCount = GetActiveGpuCount m in
      if gpuCount = 0 then Inl DivisionByZero
      else
        let regionWidth = frameWidth d div gpuCount
        in Inr (horizontal_loop 0 gpuCount regionWidth (frameWidth d) (frameHeight d) []))"

text \<open>The body of the loop of \<open>ComputeVerticalSplit\<close>.\<close>

definition vertical_region :: "u32 \<Rightarrow> u32 \<Rightarrow> u32 \<Rightarrow> u32 \<Rightarrow> u32 \<Rightarrow> FrameRegion" where
  "vertical_region i gpuCount regionHeight fw fh =
     (let oy = i * regionHeight in
      \<lparr>offsetX = 0, offsetY = oy, width = fw,
       height = (if i = gpuCount - 1 then fh - oy else regionHeight),
       gpuIndex = i\<rparr>)"

function vertical_loop :: "u32 \<Rightarrow> u32 \<Rightarrow> u32 \<Rightarrow> u32 \<Rightarrow> u32 \<Rightarrow> FrameRegion list \<Rightarrow> FrameRegion list" where
  "vertical_loop i gpuCount regionHeight fw fh regions =
     (if i < gpuCount
      then vertical_loop (i + 1) gpuCount regionHeight fw fh
             (regions @ [vertical_region i gpuCount regionHeight fw fh])
      else regions)"
  by pat_completeness auto
termination
proof (relation "measure (\<lambda>(i, gpuCount, _). unat gpuCount - unat i)")
  show "wf (measure (\<lambda>(i, gpuCount, _). unat gpuCount - unat i))"
    by simp
next
  fix i gpuCount regionHeight fw fh :: u32 and regions :: "FrameRegion list"
  assume "i < gpuCount"
  then have "unat (i + 1) = Suc (unat i)" and "unat i < unat gpuCount"
    by unat_arith+
  then show "((i + 1, gpuCount, regionHeight, fw, fh,
               regions @ [vertical_region i gpuCount regionHeight fw fh]),
              (i, gpuCount, regionHeight, fw, fh, regions))
             \<in> measure (\<lambda>(i, gpuCount, _). unat gpuCount - unat i)"
    by simp
qed

declare vertical_loop.simps [simp del]

text \<open>\<open>ComputeVerticalSplit\<close>: again an unchecked \<open>frameHeight / gpuCount\<close>.\<close>

definition ComputeVerticalSplit :: "VkMultiGpuManager \<Rightarrow> VkFrameDistributor \<Rightarrow> fault + FrameRegion list" where
  "ComputeVerticalSplit m d =
     (let gpuCount = GetActiveGpuCount m in
      if gpuCount = 0 then Inl DivisionByZero
      else
        let regionHeight = frameHeight d div gpuCount
        in Inr (vertical_loop 0 gpuCount regionHeight (frameWidth d) (frameHeight d) []))"

text \<open>
  \<open>ComputeQuadrantSplit\<close>. The local \<open>quad\<close> is declared before the loop and
  overwritten in full by every iteration, so the body is a function of \<open>i\<close> alone.
\<close>

definition quadrant_region :: "u32 \<Rightarrow> u32 \<Rightarrow> u32 \<Rightarrow> u32 \<Rightarrow> u32 \<Rightarrow> FrameRegion" where
  "quadrant_region i halfWidth halfHeight fw fh =
     (if i = 0 then
        \<lparr>offsetX = 0, offsetY = 0, width = halfWidth, height = halfHeight, gpuIndex = i\<rparr>
      else if i = 1 then
        \<lparr>offsetX = halfWidth, offsetY = 0, width = fw - halfWidth, height = halfHeight,
         gpuIndex = i\<rparr>
      else if i = 2 then
        \<lparr>offsetX = 0, offsetY = halfHeight, width = halfWidth, height = fh - halfHeight,
         gpuIndex = i\<rparr>
      else
        \<lparr>offsetX = halfWidth, offsetY = halfHeight, width = fw - halfWidth,
         height = fh - halfHeight, gpuIndex = i\<rparr>)"

function quadrant_loop :: "u32 \<Rightarrow> u32 \<Rightarrow> u32 \<Rightarrow> u32 \<Rightarrow> u32 \<Rightarrow> u32 \<Rightarrow> FrameRegion list \<Rightarrow> FrameRegion list" where
  "quadrant_loop i gpuCount halfWidth halfHeight fw fh regions =
     (if i < gpuCount
      then quadrant_loop (i + 1) gpuCount halfWidth halfHeight fw fh
             (regions @ [quadrant_region i halfWidth halfHeight fw fh])
      else regions)"
  by pat_completeness auto
termination
proof (relation "measure (\<lambda>(i, gpuCount, _). unat gpuCount - unat i)")
  show "wf (measure (\<lambda>(i, gpuCount, _). unat gpuCount - unat i))"
    by simp
next
  fix i gpuCount halfWidth halfHeight fw fh :: u32 and regions :: "FrameRegion list"
  assume "i < gpuCount"
  then have "unat (i + 1) = Suc (unat i)" and "unat i < unat gpuCount"
    by unat_arith+
  then show "((i + 1, gpuCount, halfWidth, halfHeight, fw, fh,
               regions @ [quadrant_region i halfWidth halfHeight fw fh]),
              (i, gpuCount, halfWidth, halfHeight, fw, fh, regions))
             \<in> measure (\<lambda>(i, gpuCount, _). unat gpuCount - unat i)"
    by simp
qed

declare quadrant_loop.simps [simp del]

definition ComputeQuadrantSplit :: "VkMultiGpuManager \<Rightarrow> VkFrameDistributor \<Rightarrow> fault + FrameRegion list" where
  "ComputeQuadrantSplit m d =
     (let gpuCount = min 4 (GetActiveGpuCount m);
          halfWidth = frameWidth d div 2;
          halfHeight = frameHeight d div 2
      in Inr (quadrant_loop 0 gpuCount halfWidth halfHeight (frameWidth d) (frameHeight d) []))"

definition ComputeFrameRegions :: "VkMultiGpuManager \<Rightarrow> VkFrameDistributor \<Rightarrow> fault + FrameRegion list" where
  "ComputeFrameRegions m d =
     (case distributionMode d of
        SPLIT_FRAME_HORIZONTAL \<Rightarrow> ComputeHorizontalSplit m d
      | SPLIT_FRAME_VERTICAL \<Rightarrow> ComputeVerticalSplit m d
      | SPLIT_FRAME_QUADRANTS \<Rightarrow> ComputeQuadrantSplit m d
      | _ \<Rightarrow> ComputeHorizontalSplit m d)"

section \<open>Pixels and partitions\<close>

text \<open>
  A pixel \<open>(x, y)\<close> lies in a region when it lies in the half-open rectangle
  \<open>[offsetX, offsetX + width) \<times> [offsetY, offsetY + height)\<close>, the bounds taken as
  unbounded naturals. A list of regions is an exact partition of the frame when every pixel
  of the frame lies in exactly one region of the list (no gap, no overlap) and every pixel
  outside the frame lies in none.
\<close>

definition in_columns :: "FrameRegion \<Rightarrow> nat \<Rightarrow> bool" where
  "in_columns r x \<longleftrightarrow> unat (offsetX r) \<le> x \<and> x < unat (offsetX r) + unat (width r)"

definition in_rows :: "FrameRegion \<Rightarrow> nat \<Rightarrow> bool" where
  "in_rows r y \<longleftrightarrow> unat (offsetY r) \<le> y \<and> y < unat (offsetY r) + unat (height r)"

definition in_region :: "FrameRegion \<Rightarrow> nat \<Rightarrow> nat \<Rightarrow> bool" where
  "in_region r x y \<longleftrightarrow> in_columns r x \<and> in_rows r y"

definition owners :: "FrameRegion list \<Rightarrow> nat \<Rightarrow> nat \<Rightarrow> FrameRegion list" where
  "owners rs x y = filter (\<lambda>r. in_region r x y) rs"

definition exact_partition :: "u32 \<Rightarrow> u32 \<Rightarrow> FrameRegion list \<Rightarrow> bool" where
  "exact_partition w h rs \<longleftrightarrow>
     (\<forall>x y. length (owners rs x y) = (if x < unat w \<and> y < unat h then 1 else 0))"

section \<open>The cross-device synchronizer (vk_multigpu_support.cpp)\<close>

text \<open>
  The data members of \<open>class VkMultiGpuSynchronizer\<close>: per device a list of semaphore
  handles and a frame counter. The constructor resizes both vectors to the manager's active
  count at that moment; the counters start at 0.
\<close>

record VkMultiGpuSynchronizer =
  timelineSemaphores :: "vk_handle list list"
  currentFrameIds :: "u64 list"

definition VkMultiGpuSynchronizer_new :: "VkMultiGpuManager \<Rightarrow> VkMultiGpuSynchronizer" where
  "VkMultiGpuSynchronizer_new m =
     (let gpuCount = GetActiveGpuCount m in
      \<lparr>timelineSemaphores = replicate (unat gpuCount) [],
       currentFrameIds = replicate (unat gpuCount) 0\<rparr>)"

text \<open>
  Every member function takes the synchronizer's state and returns the new one, next to the
  returned handle where there is one. The parameter \<open>gpuIndex\<close> is written
  \<open>gpuIndex'\<close>, the plain name being the field of \<open>FrameRegion\<close>. The comparison of the \<open>uint32_t\<close> index with
  \<open>size()\<close> is a comparison of naturals (the index is promoted to \<open>size_t\<close>).
\<close>

definition CreateTimelineSemaphore ::
  "VkMultiGpuSynchronizer \<Rightarrow> u32 \<Rightarrow> u64 \<Rightarrow> vk_handle \<times> VkMultiGpuSynchronizer" where
  "CreateTimelineSemaphore s gpuIndex' initialValue =
     (if unat gpuIndex' \<ge> length (timelineSemaphores s) then (VK_NULL_HANDLE, s)
      else
        let sem = VK_NULL_HANDLE
        in (sem, s\<lparr>timelineSemaphores :=
                    (timelineSemaphores s)
                      [unat gpuIndex' := timelineSemaphores s ! unat gpuIndex' @ [sem]]\<rparr>))"

definition DestroySemaphore :: "VkMultiGpuSynchronizer \<Rightarrow> u32 \<Rightarrow> vk_handle \<Rightarrow> VkMultiGpuSynchronizer" where
  "DestroySemaphore s gpuIndex' semaphore = s"

definition SignalFrameComplete :: "VkMultiGpuSynchronizer \<Rightarrow> u32 \<Rightarrow> u64 \<Rightarrow> VkMultiGpuSynchronizer" where
  "SignalFrameComplete s gpuIndex' frameId =
     (if unat gpuIndex' < length (currentFrameIds s)
      then s\<lparr>currentFrameIds := (currentFrameIds s)[unat gpuIndex' := frameId]\<rparr>
      else s)"

text \<open>The body of \<open>WaitForFrameComplete\<close> is empty: the call returns at once.\<close>

definition WaitForFrameComplete :: "VkMultiGpuSynchronizer \<Rightarrow> u32 \<Rightarrow> u64 \<Rightarrow> VkMultiGpuSynchronizer" where
  "WaitForFrameComplete s gpuIndex' frameId = s"

definition InsertInterGpuBarrier ::
  "VkMultiGpuSynchronizer \<Rightarrow> u32 \<Rightarrow> u32 \<Rightarrow> u32 \<Rightarrow> u32 \<Rightarrow> VkMultiGpuSynchronizer" where
  "InsertInterGpuBarrier s srcGpu dstGpu srcStage dstStage = s"

definition CreateCrossGpuEvent :: "VkMultiGpuSynchronizer \<Rightarrow> u32 \<Rightarrow> vk_handle \<times> VkMultiGpuSynchronizer" where
  "CreateCrossGpuEvent s gpuIndex' = (VK_NULL_HANDLE, s)"

definition SignalEvent :: "VkMultiGpuSynchronizer \<Rightarrow> u32 \<Rightarrow> vk_handle \<Rightarrow> VkMultiGpuSynchronizer" where
  "SignalEvent s gpuIndex' event = s"

definition WaitForEvent :: "VkMultiGpuSynchronizer \<Rightarrow> u32 \<Rightarrow> vk_handle \<Rightarrow> VkMultiGpuSynchronizer" where
  "WaitForEvent s gpuIndex' event = s"

text \<open>A call of the synchronizer's public interface, and a sequence of calls run in order.\<close>

datatype sync_op =
  OpCreateTimelineSemaphore u32 u64
  | OpDestroySemaphore u32 vk_handle
  | OpSignalFrameComplete u32 u64
  | OpWaitForFrameComplete u32 u64
  | OpInsertInterGpuBarrier u32 u32 u32 u32
  | OpCreateCrossGpuEvent u32
  | OpSignalEvent u32 vk_handle
  | OpWaitForEvent u32 vk_handle

fun sync_step :: "VkMultiGpuSynchronizer \<Rightarrow> sync_op \<Rightarrow> VkMultiGpuSynchronizer" where
  "sync_step s (OpCreateTimelineSemaphore g v) = snd (CreateTimelineSemaphore s g v)"
| "sync_step s (OpDestroySemaphore g sem) = DestroySemaphore s g sem"
| "sync_step s (OpSignalFrameComplete g fid) = SignalFrameComplete s g fid"
| "sync_step s (OpWaitForFrameComplete g fid) = WaitForFrameComplete s g fid"
| "sync_step s (OpInsertInterGpuBarrier src dst a b) = InsertInterGpuBarrier s src dst a b"
| "sync_step s (OpCreateCrossGpuEvent g) = snd (CreateCrossGpuEvent s g)"
| "sync_step s (OpSignalEvent g e) = SignalEvent s g e"
| "sync_step s (OpWaitForEvent g e) = WaitForEvent s g e"

fun sync_run :: "VkMultiGpuSynchronizer \<Rightarrow> sync_op list \<Rightarrow> VkMultiGpuSynchronizer" where
  "sync_run s [] = s"
| "sync_run s (c # cs) = sync_run (sync_step s c) cs"

text \<open>
  The discipline of a caller that signals frame ids in ascending order: every
  \<open>SignalFrameComplete\<close> of the sequence, at the moment it runs, carries an id that is not
  below the current counter of the device it signals.
\<close>

fun ascending_signals :: "VkMultiGpuSynchronizer \<Rightarrow> sync_op list \<Rightarrow> bool" where
  "ascending_signals s [] = True"
| "ascending_signals s (OpSignalFrameComplete g fid # cs) =
     ((unat g < length (currentFrameIds s) \<longrightarrow> currentFrameIds s ! unat g \<le> fid)
      \<and> ascending_signals (SignalFrameComplete s g fid) cs)"
| "ascending_signals s (c # cs) = ascending_signals (sync_step s c) cs"

section \<open>The memory placement manager (vk_multigpu_support.cpp)\<close>

datatype MemoryPlacementStrategy = REPLICATED | DISTRIBUTED | PINNED_HOST | GPU_LOCAL

text \<open>The two \<open>std::map\<close>s of \<open>class VkMultiGpuMemoryManager\<close>, from handle to strategy.\<close>

record VkMultiGpuMemoryManager =
  bufferStrategies :: "vk_handle \<rightharpoonup> MemoryPlacementStrategy"
  imageStrategies :: "vk_handle \<rightharpoonup> MemoryPlacementStrategy"

definition VkMultiGpuMemoryManager_new :: VkMultiGpuMemoryManager where
  "VkMultiGpuMemoryManager_new = \<lparr>bufferStrategies = Map.empty, imageStrategies = Map.empty\<rparr>"

definition AllocateBuffer ::
  "VkMultiGpuMemoryManager \<Rightarrow> u32 \<Rightarrow> u64 \<Rightarrow> MemoryPlacementStrategy \<Rightarrow> u32 list
     \<Rightarrow> vk_handle \<times> VkMultiGpuMemoryManager" where
  "AllocateBuffer mm usage size' strategy targetGpus =
     (let buffer = VK_NULL_HANDLE
      in (buffer, mm\<lparr>bufferStrategies := (bufferStrategies mm)(buffer \<mapsto> strategy)\<rparr>))"

text \<open>
  \<open>AllocateImage\<close> never reads its \<open>VkImageCreateInfo\<close>, which stays a value of any
  type. The local \<open>image\<close> is written \<open>image'\<close> (the plain name is HOL's image of a
  set).
\<close>

definition AllocateImage ::
  "VkMultiGpuMemoryManager \<Rightarrow> 'info \<Rightarrow> MemoryPlacementStrategy \<Rightarrow> u32 list
     \<Rightarrow> vk_handle \<times> VkMultiGpuMemoryManager" where
  "AllocateImage mm imageInfo strategy targetGpus =
     (let image' = VK_NULL_HANDLE
      in (image', mm\<lparr>imageStrategies := (imageStrategies mm)(image' \<mapsto> strategy)\<rparr>))"

definition FreeBuffer :: "VkMultiGpuMemoryManager \<Rightarrow> vk_handle \<Rightarrow> VkMultiGpuMemoryManager" where
  "FreeBuffer mm buffer = mm\<lparr>bufferStrategies := (bufferStrategies mm)(buffer := None)\<rparr>"

definition FreeImage :: "VkMultiGpuMemoryManager \<Rightarrow> vk_handle \<Rightarrow> VkMultiGpuMemoryManager" where
  "FreeImage mm image' = mm\<lparr>imageStrategies := (imageStrategies mm)(image' := None)\<rparr>"

definition CopyBufferBetweenGpus ::
  "VkMultiGpuMemoryManager \<Rightarrow> u32 \<Rightarrow> u32 \<Rightarrow> vk_handle \<Rightarrow> vk_handle \<Rightarrow> u64 \<Rightarrow> VkMultiGpuMemoryManager" where
  "CopyBufferBetweenGpus mm srcGpu dstGpu src dst size' = mm"

definition ReplicateBufferToAllGpus ::
  "VkMultiGpuMemoryManager \<Rightarrow> vk_handle \<Rightarrow> u64 \<Rightarrow> VkMultiGpuMemoryManager" where
  "ReplicateBufferToAllGpus mm buffer size' = mm"

text \<open>\<open>MapMemory\<close> returns \<open>nullptr\<close>, the address 0.\<close>

definition MapMemory :: "VkMultiGpuMemoryManager \<Rightarrow> vk_handle \<Rightarrow> u64 \<Rightarrow> u64 \<times> VkMultiGpuMemoryManager" where
  "MapMemory mm buffer size' = (0, mm)"

definition UnmapMemory :: "VkMultiGpuMemoryManager \<Rightarrow> vk_handle \<Rightarrow> VkMultiGpuMemoryManager" where
  "UnmapMemory mm buffer = mm"

text \<open>A call of the memory manager's public interface, and a sequence of calls.\<close>

datatype mem_op =
  OpAllocateBuffer u32 u64 MemoryPlacementStrategy "u32 list"
  | OpAllocateImage MemoryPlacementStrategy "u32 list"
  | OpFreeBuffer vk_handle
  | OpFreeImage vk_handle
  | OpCopyBufferBetweenGpus u32 u32 vk_handle vk_handle u64
  | OpReplicateBufferToAllGpus vk_handle u64
  | OpMapMemory vk_handle u64
  | OpUnmapMemory vk_handle

fun mem_step :: "VkMultiGpuMemoryManager \<Rightarrow> mem_op \<Rightarrow> VkMultiGpuMemoryManager" where
  "mem_step mm (OpAllocateBuffer usage sz strategy targets) =
     snd (AllocateBuffer mm usage sz strategy targets)"
| "mem_step mm (OpAllocateImage strategy targets) = snd (AllocateImage mm () strategy targets)"
| "mem_step mm (OpFreeBuffer b) = FreeBuffer mm b"
| "mem_step mm (OpFreeImage i) = FreeImage mm i"
| "mem_step mm (OpCopyBufferBetweenGpus sg dg src dst sz) = CopyBufferBetweenGpus mm sg dg src dst sz"
| "mem_step mm (OpReplicateBufferToAllGpus b sz) = ReplicateBufferToAllGpus mm b sz"
| "mem_step mm (OpMapMemory b sz) = snd (MapMemory mm b sz)"
| "mem_step mm (OpUnmapMemory b) = UnmapMemory mm b"

fun mem_run :: "VkMultiGpuMemoryManager \<Rightarrow> mem_op list \<Rightarrow> VkMultiGpuMemoryManager" where
  "mem_run mm [] = mm"
| "mem_run mm (c # cs) = mem_run (mem_step mm c) cs"

section \<open>The device registry: what the driver answers\<close>

text \<open>
  The registry talks to the Vulkan driver, which is not part of the sources. Its answers
  are inputs of the model. A physical device is described by what the driver reports for
  it: its handle and name, the \<open>queueFlags\<close> of its queue families in enumeration order
  (the driver reports the same list at both calls of
  \<open>vkGetPhysicalDeviceQueueFamilyProperties\<close>), the outcome of \<open>vkCreateDevice\<close> for a
  given list of requested queue family indices (\<open>None\<close> for a result other than
  \<open>VK_SUCCESS\<close>), the queue handle \<open>vkGetDeviceQueue\<close> returns for a family, and the
  outcome of \<open>vkCreateCommandPool\<close> for a family. An instance is its handle and the
  physical devices \<open>vkEnumeratePhysicalDevices\<close> reports, in order.
\<close>

record PhysicalDevice =
  pdHandle :: vk_handle
  pdDeviceName :: string
  pdQueueFlags :: "u32 list"
  pdCreateDevice :: "u32 list \<Rightarrow> vk_handle option"
  pdGetDeviceQueue :: "u32 \<Rightarrow> vk_handle"
  pdCreateCommandPool :: "u32 \<Rightarrow> vk_handle option"

record VkInstance =
  instanceHandle :: vk_handle
  physicalDevices :: "PhysicalDevice list"

text \<open>The capability bits of \<open>VkQueueFlagBits\<close>, with the values of the Vulkan headers.\<close>

definition VK_QUEUE_GRAPHICS_BIT :: u32 where
  "VK_QUEUE_GRAPHICS_BIT = 0x1"

definition VK_QUEUE_COMPUTE_BIT :: u32 where
  "VK_QUEUE_COMPUTE_BIT = 0x2"

definition VK_QUEUE_TRANSFER_BIT :: u32 where
  "VK_QUEUE_TRANSFER_BIT = 0x4"

section \<open>The device registry: operations (vk_multigpu_device.cpp)\<close>

text \<open>
  The body of the loop of \<open>SelectQueueFamilyIndices\<close> for family \<open>i\<close> with flags
  \<open>queueFlags\<close>: three tests in sequence. In C++ \<open>a & b && c\<close> is \<open>(a & b) && c\<close>.
\<close>

definition select_families :: "u32 \<Rightarrow> u32 \<Rightarrow> VkGpuDevice \<Rightarrow> VkGpuDevice" where
  "select_families i queueFlags gpuInfo =
     (let g1 = (if queueFlags AND VK_QUEUE_GRAPHICS_BIT \<noteq> 0
                then gpuInfo\<lparr>graphicsQueueFamilyIndex := i\<rparr> else gpuInfo);
          g2 = (if queueFlags AND VK_QUEUE_COMPUTE_BIT \<noteq> 0
                   \<and> computeQueueFamilyIndex g1 = UINT32_MAX
                then g1\<lparr>computeQueueFamilyIndex := i\<rparr> else g1);
          g3 = (if queueFlags AND VK_QUEUE_TRANSFER_BIT \<noteq> 0
                   \<and> transferQueueFamilyIndex g2 = UINT32_MAX
                then g2\<lparr>transferQueueFamilyIndex := i\<rparr> else g2)
      in g3)"

function select_loop :: "u32 \<Rightarrow> u32 \<Rightarrow> u32 list \<Rightarrow> VkGpuDevice \<Rightarrow> VkGpuDevice" where
  "select_loop i queueFamilyCount queueFamilies gpuInfo =
     (if i < queueFamilyCount
      then select_loop (i + 1) queueFamilyCount queueFamilies
             (select_families i (queueFamilies ! unat i) gpuInfo)
      else gpuInfo)"
  by pat_completeness auto
termination
proof (relation "measure (\<lambda>(i, queueFamilyCount, _). unat queueFamilyCount - unat i)")
  show "wf (measure (\<lambda>(i, queueFamilyCount, _). unat queueFamilyCount - unat i))"
    by simp
next
  fix i queueFamilyCount :: u32 and queueFamilies :: "u32 list" and gpuInfo :: VkGpuDevice
  assume "i < queueFamilyCount"
  then have "unat (i + 1) = Suc (unat i)" and "unat i < unat queueFamilyCount"
    by unat_arith+
  then show "((i + 1, queueFamilyCount, queueFamilies,
               select_families i (queueFamilies ! unat i) gpuInfo),
              (i, queueFamilyCount, queueFamilies, gpuInfo))
             \<in> measure (\<lambda>(i, queueFamilyCount, _). unat queueFamilyCount - unat i)"
    by simp
qed

declare select_loop.simps [simp del]

text \<open>
  \<open>SelectQueueFamilyIndices\<close>: the result and the updated \<open>gpuInfo\<close>. The vector
  \<open>queueFamilies\<close> has \<open>queueFamilyCount\<close> elements, so the loop reads inside it.
\<close>

definition SelectQueueFamilyIndices :: "PhysicalDevice \<Rightarrow> VkGpuDevice \<Rightarrow> bool \<times> VkGpuDevice" where
  "SelectQueueFamilyIndices device gpuInfo =
     (let queueFamilies = pdQueueFlags device;
          queueFamilyCount = word_of_nat (length queueFamilies);
          g0 = gpuInfo\<lparr>graphicsQueueFamilyIndex := UINT32_MAX,
                       computeQueueFamilyIndex := UINT32_MAX,
                       transferQueueFamilyIndex := UINT32_MAX\<rparr>;
          g = select_loop 0 queueFamilyCount queueFamilies g0
      in (graphicsQueueFamilyIndex g \<noteq> UINT32_MAX, g))"

text \<open>
  \<open>CreateLogicalDevice\<close>: one queue is requested from the graphics family and one from the
  compute family when it is resolved and differs from the graphics family. The calls that
  destroy the device after a failed pool creation have no effect on the registry and are
  not recorded.
\<close>

definition CreateLogicalDevice :: "PhysicalDevice \<Rightarrow> VkGpuDevice \<Rightarrow> bool \<times> VkGpuDevice" where
  "CreateLogicalDevice device gpuInfo =
     (let queueCreateInfos =
            (if graphicsQueueFamilyIndex gpuInfo \<noteq> UINT32_MAX
             then [graphicsQueueFamilyIndex gpuInfo] else [])
            @ (if computeQueueFamilyIndex gpuInfo \<noteq> UINT32_MAX
                  \<and> computeQueueFamilyIndex gpuInfo \<noteq> graphicsQueueFamilyIndex gpuInfo
               then [computeQueueFamilyIndex gpuInfo] else [])
      in case pdCreateDevice device queueCreateInfos of
           None \<Rightarrow> (False, gpuInfo)
         | Some dev \<Rightarrow>
             let g1 = gpuInfo\<lparr>logicalDevice := dev,
                              graphicsQueue :=
                                pdGetDeviceQueue device (graphicsQueueFamilyIndex gpuInfo)\<rparr>;
                 g2 = (if computeQueueFamilyIndex g1 \<noteq> UINT32_MAX
                       then g1\<lparr>computeQueue :=
                                  pdGetDeviceQueue device (computeQueueFamilyIndex g1)\<rparr>
                       else g1);
                 g3 = (if transferQueueFamilyIndex g2 \<noteq> UINT32_MAX
                       then g2\<lparr>transferQueue :=
                                  pdGetDeviceQueue device (transferQueueFamilyIndex g2)\<rparr>
                       else g2)
             in case pdCreateCommandPool device (graphicsQueueFamilyIndex g3) of
                  None \<Rightarrow> (False, g3)
                | Some pool \<Rightarrow> (True, g3\<lparr>commandPool := pool\<rparr>))"

text \<open>
  The body of the loop of \<open>InitializeMultiGpu\<close> for candidate \<open>i\<close>: the record that is
  pushed to \<open>gpuDevices\<close>, or \<open>None\<close> when one of the two \<open>continue\<close> branches is taken.
  \<open>VkGpuDevice gpuInfo = {}\<close> starts from zeroes and an empty name.
\<close>

definition bring_up :: "u32 \<Rightarrow> PhysicalDevice \<Rightarrow> VkGpuDevice option" where
  "bring_up i device =
     (let gpuInfo =
            \<lparr>deviceId = i, physicalDevice = pdHandle device, logicalDevice = 0,
             graphicsQueue = 0, computeQueue = 0, transferQueue = 0, commandPool = 0,
             deviceName = pdDeviceName device,
             graphicsQueueFamilyIndex = 0, computeQueueFamilyIndex = 0,
             transferQueueFamilyIndex = 0\<rparr>;
          (found, g1) = SelectQueueFamilyIndices device gpuInfo
      in if \<not> found then None
         else
           let (created, g2) = CreateLogicalDevice device g1
           in if \<not> created then None else Some g2)"

function init_loop :: "u32 \<Rightarrow> u32 \<Rightarrow> PhysicalDevice list \<Rightarrow> VkGpuDevice list \<Rightarrow> VkGpuDevice list" where
  "init_loop i gpusToUse devices gpus =
     (if i < gpusToUse
      then init_loop (i + 1) gpusToUse devices
             (case bring_up i (devices ! unat i) of
                None \<Rightarrow> gpus
              | Some gpuInfo \<Rightarrow> gpus @ [gpuInfo])
      else gpus)"
  by pat_completeness auto
termination
proof (relation "measure (\<lambda>(i, gpusToUse, _). unat gpusToUse - unat i)")
  show "wf (measure (\<lambda>(i, gpusToUse, _). unat gpusToUse - unat i))"
    by simp
next
  fix i gpusToUse :: u32 and devices :: "PhysicalDevice list" and gpus :: "VkGpuDevice list"
  assume "i < gpusToUse"
  then have "unat (i + 1) = Suc (unat i)" and "unat i < unat gpusToUse"
    by unat_arith+
  then show "((i + 1, gpusToUse, devices,
               (case bring_up i (devices ! unat i) of
                  None \<Rightarrow> gpus
                | Some gpuInfo \<Rightarrow> gpus @ [gpuInfo])),
              (i, gpusToUse, devices, gpus))
             \<in> measure (\<lambda>(i, gpusToUse, _). unat gpusToUse - unat i)"
    by simp
qed

declare init_loop.simps [simp del]

text \<open>
  \<open>InitializeMultiGpu\<close>: the returned flag and the manager after the call. The devices are
  appended to whatever \<open>gpuDevices\<close> held before the call.
\<close>

definition InitializeMultiGpu :: "VkMultiGpuManager \<Rightarrow> VkInstance \<Rightarrow> u32 \<Rightarrow> bool \<times> VkMultiGpuManager" where
  "InitializeMultiGpu m inst desiredGpuCount =
     (let m1 = m\<lparr>vkInstance := instanceHandle inst\<rparr>;
          devices = physicalDevices inst;
          physicalDeviceCount = word_of_nat (length devices) :: u32
      in if physicalDeviceCount = 0 then (False, m1)
         else
           let gpusToUse = min physicalDeviceCount desiredGpuCount;
               m2 = m1\<lparr>gpuDevices := init_loop 0 gpusToUse devices (gpuDevices m1)\<rparr>
           in (gpuDevices m2 \<noteq> [], m2))"

text \<open>
  The accessors. A returned pointer into \<open>gpuDevices\<close> is the record it points to, and
  \<open>nullptr\<close> is \<open>None\<close>.
\<close>

definition GetAvailableGpus :: "VkMultiGpuManager \<Rightarrow> VkGpuDevice list" where
  "GetAvailableGpus m = gpuDevices m"

definition GetGpuByIndex :: "VkMultiGpuManager \<Rightarrow> u32 \<Rightarrow> VkGpuDevice option" where
  "GetGpuByIndex m idx =
     (if unat idx < length (gpuDevices m) then Some (gpuDevices m ! unat idx) else None)"

definition SupportsAsyncComputeOnGpu :: "VkMultiGpuManager \<Rightarrow> u32 \<Rightarrow> bool" where
  "SupportsAsyncComputeOnGpu m gpuIndex' =
     (if unat gpuIndex' \<ge> length (gpuDevices m) then False
      else computeQueueFamilyIndex (gpuDevices m ! unat gpuIndex') \<noteq> UINT32_MAX)"

definition SupportsMemorySharing :: "VkMultiGpuManager \<Rightarrow> bool" where
  "SupportsMemorySharing m \<longleftrightarrow> GetActiveGpuCount m \<ge> 2"

text \<open>
  \<open>AllocateMemory\<close> and \<open>FreeMemory\<close> pass through to the driver and write nothing to the
  registry. What they do is the list of driver calls they issue; \<open>AllocateMemory\<close> also
  returns the handle the driver leaves in \<open>memory\<close>, which is an input of the model.
\<close>

record VkMemoryAllocateInfo =
  allocationSize :: u64
  memoryTypeIndex :: u32

datatype vk_call =
  VkAllocateMemoryCall vk_handle VkMemoryAllocateInfo
  | VkFreeMemoryCall vk_handle vk_handle

definition AllocateMemory ::
  "(vk_handle \<Rightarrow> VkMemoryAllocateInfo \<Rightarrow> vk_handle) \<Rightarrow> VkMultiGpuManager \<Rightarrow> u32
     \<Rightarrow> VkMemoryAllocateInfo \<Rightarrow> vk_handle \<times> vk_call list" where
  "AllocateMemory vkAllocateMemory m gpuIndex' allocInfo =
     (if unat gpuIndex' \<ge> length (gpuDevices m) then (VK_NULL_HANDLE, [])
      else
        let dev = logicalDevice (gpuDevices m ! unat gpuIndex')
        in (vkAllocateMemory dev allocInfo, [VkAllocateMemoryCall dev allocInfo]))"

definition FreeMemory :: "VkMultiGpuManager \<Rightarrow> u32 \<Rightarrow> vk_handle \<Rightarrow> vk_call list" where
  "FreeMemory m gpuIndex' memory =
     (if unat gpuIndex' < length (gpuDevices m) \<and> memory \<noteq> VK_NULL_HANDLE
      then [VkFreeMemoryCall (logicalDevice (gpuDevices m ! unat gpuIndex')) memory]
      else [])"

section \<open>First and last match\<close>

text \<open>
  What it means for an index \<open>v\<close> to be the outcome of a search among the families
  \<open>0, \<dots>, k - 1\<close> for a property \<open>P\<close>: the sentinel \<open>UINT32_MAX\<close> when no family has
  the property, and otherwise the last, respectively the first, family that has it.
\<close>

definition last_match :: "(nat \<Rightarrow> bool) \<Rightarrow> nat \<Rightarrow> u32 \<Rightarrow> bool" where
  "last_match P k v \<longleftrightarrow>
     (v = UINT32_MAX \<and> (\<forall>j<k. \<not> P j))
     \<or> (v \<noteq> UINT32_MAX \<and> unat v < k \<and> P (unat v) \<and> (\<forall>j. unat v < j \<and> j < k \<longrightarrow> \<not> P j))"

definition first_match :: "(nat \<Rightarrow> bool) \<Rightarrow> nat \<Rightarrow> u32 \<Rightarrow> bool" where
  "first_match P k v \<longleftrightarrow>
     (v = UINT32_MAX \<and> (\<forall>j<k. \<not> P j))
     \<or> (v \<noteq> UINT32_MAX \<and> unat v < k \<and> P (unat v) \<and> (\<forall>j<unat v. \<not> P j))"

text \<open>Family \<open>j\<close> of a list of \<open>queueFlags\<close> carries the capability \<open>flag\<close>.\<close>

definition family_has :: "u32 list \<Rightarrow> u32 \<Rightarrow> nat \<Rightarrow> bool" where
  "family_has queueFamilies flag j \<longleftrightarrow> queueFamilies ! j AND flag \<noteq> 0"

text \<open>
  Candidate \<open>k\<close> of a list of physical devices comes up: both the queue family selection
  and the creation of the logical device succeed for it.
\<close>

definition comes_up :: "PhysicalDevice list \<Rightarrow> nat \<Rightarrow> bool" where
  "comes_up devices k \<longleftrightarrow> bring_up (word_of_nat k) (devices ! k) \<noteq> None"

section \<open>Sample values for the concrete instances\<close>

definition sample_gpu :: "u32 \<Rightarrow> VkGpuDevice" where
  "sample_gpu i =
     \<lparr>deviceId = i, physicalDevice = 1, logicalDevice = 1, graphicsQueue = 1, computeQueue = 1,
      transferQueue = 1, commandPool = 1, deviceName = ''gpu'',
      graphicsQueueFamilyIndex = 0, computeQueueFamilyIndex = 0, transferQueueFamilyIndex = 0\<rparr>"

definition sample_manager :: "u32 list \<Rightarrow> VkMultiGpuManager" where
  "sample_manager ids = \<lparr>gpuDevices = map sample_gpu ids, vkInstance = 1\<rparr>"

definition quadrant_frame_100 :: VkFrameDistributor where
  "quadrant_frame_100 =
     SetDistributionMode (SetFrameResolution VkFrameDistributor_new 100 100) SPLIT_FRAME_QUADRANTS"

definition one_gpu_sync :: VkMultiGpuSynchronizer where
  "one_gpu_sync = VkMultiGpuSynchronizer_new (sample_manager [0])"

text \<open>A physical device with the given queue families, on which every driver call succeeds.\<close>

definition sample_device :: "u32 list \<Rightarrow> PhysicalDevice" where
  "sample_device flags =
     \<lparr>pdHandle = 1, pdDeviceName = ''gpu'', pdQueueFlags = flags,
      pdCreateDevice = (\<lambda>_. Some 2), pdGetDeviceQueue = (\<lambda>_. 3),
      pdCreateCommandPool = (\<lambda>_. Some 4)\<rparr>"

definition blank_gpu :: VkGpuDevice where
  "blank_gpu =
     \<lparr>deviceId = 0, physicalDevice = 0, logicalDevice = 0, graphicsQueue = 0, computeQueue = 0,
      transferQueue = 0, commandPool = 0, deviceName = [],
      graphicsQueueFamilyIndex = 0, computeQueueFamilyIndex = 0, transferQueueFamilyIndex = 0\<rparr>"

definition sample_instance :: "u32 list list \<Rightarrow> VkInstance" where
  "sample_instance flagss = \<lparr>instanceHandle = 9, physicalDevices = map sample_device flagss\<rparr>"

section \<open>Word arithmetic of the loops\<close>

lemma word_succ_unat: "(i::u32) < n \<Longrightarrow> unat (i + 1) = Suc (unat i)"
  by unat_arith

lemma upt_unat_step:
  assumes "(i::u32) < n"
  shows "[unat i..<unat n] = unat i # [unat (i + 1)..<unat n]"
proof -
  have "unat i < unat n" using assms by (simp add: word_less_nat_alt)
  then show ?thesis by (simp add: upt_conv_Cons word_succ_unat [OF assms])
qed

lemma horizontal_loop_eq:
  "i \<le> gc \<Longrightarrow> horizontal_loop i gc rw fw fh acc =
     acc @ map (\<lambda>k. horizontal_region (word_of_nat k) gc rw fw fh) [unat i..<unat gc]"
proof (induction i gc rw fw fh acc rule: horizontal_loop.induct)
  case (1 i gc rw fw fh acc)
  show ?case
  proof (cases "i < gc")
    case True
    then have "i + 1 \<le> gc" by (rule inc_le)
    with True "1.IH" show ?thesis
      by (subst horizontal_loop.simps) (simp add: upt_unat_step [OF True])
  next
    case False
    with "1.prems" have "i = gc" by simp
    then show ?thesis by (subst horizontal_loop.simps) simp
  qed
qed

lemma horizontal_loop_length:
  "length (horizontal_loop 0 gc rw fw fh []) = unat gc"
  by (simp add: horizontal_loop_eq)

lemma horizontal_loop_nth:
  "k < unat gc \<Longrightarrow> horizontal_loop 0 gc rw fw fh [] ! k = horizontal_region (word_of_nat k) gc rw fw fh"
  by (simp add: horizontal_loop_eq)

lemma blocks_count:
  "length (filter (\<lambda>k. k * c \<le> x \<and> x < k * c + c) [0..<n]) = (if x < n * c then 1 else 0)"
  by (induction n) auto

lemma strips_count:
  assumes "0 < n" and "(n - 1) * c \<le> F"
  shows "length (filter (\<lambda>k. k * c \<le> x \<and> x < k * c + (if k = n - 1 then F - k * c else c)) [0..<n])
         = (if x < F then 1 else 0)"
proof -
  obtain m where n: "n = Suc m" using assms(1) by (cases n) auto
  have "filter (\<lambda>k. k * c \<le> x \<and> x < k * c + (if k = m then F - k * c else c)) [0..<m]
        = filter (\<lambda>k. k * c \<le> x \<and> x < k * c + c) [0..<m]"
    by (rule filter_cong) auto
  then have "length (filter (\<lambda>k. k * c \<le> x \<and> x < k * c + (if k = m then F - k * c else c)) [0..<m])
        = (if x < m * c then 1 else 0)"
    by (simp add: blocks_count)
  with assms(2) show ?thesis
    unfolding n by auto
qed

lemma div_mult_le_frame: "k \<le> n \<Longrightarrow> k * (F div n) \<le> (F::nat)"
proof -
  assume "k \<le> n"
  then have "k * (F div n) \<le> n * (F div n)" by (rule mult_le_mono1)
  also have "\<dots> \<le> F" by simp
  finally show ?thesis .
qed

lemma unat_strip_offset:
  assumes "k \<le> unat (gc::u32)"
  shows "unat (word_of_nat k * (fw div gc) :: u32) = k * (unat fw div unat gc)"
proof -
  have k: "unat (word_of_nat k :: u32) = k"
    using assms by (rule le_unat_uoi)
  have "k * (unat fw div unat gc) \<le> unat fw"
    using assms by (rule div_mult_le_frame)
  also have "\<dots> < 2 ^ LENGTH(32)" by (rule unsigned_less)
  finally have "unat (word_of_nat k :: u32) * unat (fw div gc) < 2 ^ LENGTH(32)"
    by (simp add: k unat_div)
  then have "unat (word_of_nat k * (fw div gc) :: u32) = unat (word_of_nat k :: u32) * unat (fw div gc)"
    by (simp only: unat_mult_lem)
  then show ?thesis by (simp add: k unat_div)
qed

lemma word_of_nat_is_last:
  assumes "gc \<noteq> 0" and "k < unat (gc::u32)"
  shows "(word_of_nat k = gc - 1) \<longleftrightarrow> k = unat gc - 1"
proof -
  have k: "unat (word_of_nat k :: u32) = k"
    using assms(2) by (intro le_unat_uoi [of k gc]) simp
  have "unat (gc - 1) = unat gc - 1"
    using assms(1) by (rule unat_minus_one)
  then show ?thesis
    by (simp add: word_unat_eq_iff k)
qed

lemma horizontal_region_nat:
  fixes gc fw fh :: u32
  assumes "gc \<noteq> 0" and "k < unat gc"
  defines "r \<equiv> horizontal_region (word_of_nat k) gc (fw div gc) fw fh"
  shows "unat (offsetX r) = k * (unat fw div unat gc)"
    and "unat (width r) = (if k = unat gc - 1 then unat fw - k * (unat fw div unat gc) else unat fw div unat gc)"
    and "offsetY r = 0" and "height r = fh" and "gpuIndex r = word_of_nat k"
proof -
  have off: "unat (word_of_nat k * (fw div gc) :: u32) = k * (unat fw div unat gc)"
    using assms(2) by (simp add: unat_strip_offset)
  show "unat (offsetX r) = k * (unat fw div unat gc)"
    by (simp add: r_def horizontal_region_def Let_def off)
  have "k * (unat fw div unat gc) \<le> unat fw"
    using assms(2) by (simp add: div_mult_le_frame)
  then have "word_of_nat k * (fw div gc) \<le> fw"
    by (simp add: word_le_nat_alt off)
  then have "unat (fw - word_of_nat k * (fw div gc)) = unat fw - k * (unat fw div unat gc)"
    by (simp add: unat_sub off)
  then show "unat (width r) = (if k = unat gc - 1 then unat fw - k * (unat fw div unat gc) else unat fw div unat gc)"
    using word_of_nat_is_last [OF assms(1,2)]
    by (cases "k = unat gc - 1") (simp_all add: r_def horizontal_region_def Let_def unat_div)
  show "offsetY r = 0" "height r = fh" "gpuIndex r = word_of_nat k"
    by (simp_all add: r_def horizontal_region_def Let_def)
qed

lemma word_ge_one_iff: "1 \<le> (w::u32) \<longleftrightarrow> w \<noteq> 0"
  by (simp add: word_le_nat_alt unat_eq_0 Suc_le_eq unat_gt_0)

lemma horizontal_loop_map:
  "horizontal_loop 0 gc rw fw fh [] =
     map (\<lambda>k. horizontal_region (word_of_nat k) gc rw fw fh) [0..<unat gc]"
  by (simp add: horizontal_loop_eq)

lemma horizontal_columns_count:
  fixes gc fw fh :: u32
  assumes "gc \<noteq> 0"
  shows "length (filter (\<lambda>r. in_columns r x) (horizontal_loop 0 gc (fw div gc) fw fh []))
         = (if x < unat fw then 1 else 0)"
proof -
  let ?n = "unat gc" and ?F = "unat fw"
  let ?c = "?F div ?n"
  let ?R = "\<lambda>k. horizontal_region (word_of_nat k) gc (fw div gc) fw fh"
  have n: "0 < ?n" using assms by (simp add: unat_gt_0)
  have "length (filter (\<lambda>r. in_columns r x) (map ?R [0..<?n]))
        = length (filter (\<lambda>k. in_columns (?R k) x) [0..<?n])"
    by (simp add: filter_map comp_def)
  also have "filter (\<lambda>k. in_columns (?R k) x) [0..<?n]
        = filter (\<lambda>k. k * ?c \<le> x \<and> x < k * ?c + (if k = ?n - 1 then ?F - k * ?c else ?c)) [0..<?n]"
    by (rule filter_cong) (simp_all add: in_columns_def horizontal_region_nat [OF assms])
  also have "length \<dots> = (if x < ?F then 1 else 0)"
    using n by (intro strips_count) (simp_all add: div_mult_le_frame)
  finally show ?thesis by (simp add: horizontal_loop_map)
qed

lemma horizontal_rows:
  fixes gc fw fh :: u32
  assumes "r \<in> set (horizontal_loop 0 gc rw fw fh [])"
  shows "in_rows r y \<longleftrightarrow> y < unat fh"
  using assms by (auto simp: horizontal_loop_map in_rows_def horizontal_region_def Let_def)

lemma horizontal_partition:
  fixes gc fw fh :: u32
  assumes "gc \<noteq> 0"
  shows "exact_partition fw fh (horizontal_loop 0 gc (fw div gc) fw fh [])"
proof -
  let ?rs = "horizontal_loop 0 gc (fw div gc) fw fh []"
  have "length (owners ?rs x y) = (if x < unat fw \<and> y < unat fh then 1 else 0)" for x y
  proof -
    have "owners ?rs x y = filter (\<lambda>r. in_columns r x \<and> y < unat fh) ?rs"
      unfolding owners_def in_region_def
      by (rule filter_cong) (simp_all add: horizontal_rows)
    then show ?thesis
      using horizontal_columns_count [OF assms, of x fw fh] by (cases "y < unat fh") simp_all
  qed
  then show ?thesis by (simp add: exact_partition_def)
qed

lemma vertical_loop_eq:
  "i \<le> gc \<Longrightarrow> vertical_loop i gc rh fw fh acc =
     acc @ map (\<lambda>k. vertical_region (word_of_nat k) gc rh fw fh) [unat i..<unat gc]"
proof (induction i gc rh fw fh acc rule: vertical_loop.induct)
  case (1 i gc rh fw fh acc)
  show ?case
  proof (cases "i < gc")
    case True
    then have "i + 1 \<le> gc" by (rule inc_le)
    with True "1.IH" show ?thesis
      by (subst vertical_loop.simps) (simp add: upt_unat_step [OF True])
  next
    case False
    with "1.prems" have "i = gc" by simp
    then show ?thesis by (subst vertical_loop.simps) simp
  qed
qed

lemma vertical_loop_map:
  "vertical_loop 0 gc rh fw fh [] =
     map (\<lambda>k. vertical_region (word_of_nat k) gc rh fw fh) [0..<unat gc]"
  by (simp add: vertical_loop_eq)

lemma vertical_region_nat:
  fixes gc fw fh :: u32
  assumes "gc \<noteq> 0" and "k < unat gc"
  defines "r \<equiv> vertical_region (word_of_nat k) gc (fh div gc) fw fh"
  shows "unat (offsetY r) = k * (unat fh div unat gc)"
    and "unat (height r) = (if k = unat gc - 1 then unat fh - k * (unat fh div unat gc) else unat fh div unat gc)"
proof -
  have off: "unat (word_of_nat k * (fh div gc) :: u32) = k * (unat fh div unat gc)"
    using assms(2) by (simp add: unat_strip_offset)
  show "unat (offsetY r) = k * (unat fh div unat gc)"
    by (simp add: r_def vertical_region_def Let_def off)
  have "k * (unat fh div unat gc) \<le> unat fh"
    using assms(2) by (simp add: div_mult_le_frame)
  then have "word_of_nat k * (fh div gc) \<le> fh"
    by (simp add: word_le_nat_alt off)
  then have "unat (fh - word_of_nat k * (fh div gc)) = unat fh - k * (unat fh div unat gc)"
    by (simp add: unat_sub off)
  then show "unat (height r) = (if k = unat gc - 1 then unat fh - k * (unat fh div unat gc) else unat fh div unat gc)"
    using word_of_nat_is_last [OF assms(1,2)]
    by (cases "k = unat gc - 1") (simp_all add: r_def vertical_region_def Let_def unat_div)
qed

lemma vertical_rows_count:
  fixes gc fw fh :: u32
  assumes "gc \<noteq> 0"
  shows "length (filter (\<lambda>r. in_rows r y) (vertical_loop 0 gc (fh div gc) fw fh []))
         = (if y < unat fh then 1 else 0)"
proof -
  let ?n = "unat gc" and ?F = "unat fh"
  let ?c = "?F div ?n"
  let ?R = "\<lambda>k. vertical_region (word_of_nat k) gc (fh div gc) fw fh"
  have n: "0 < ?n" using assms by (simp add: unat_gt_0)
  have "length (filter (\<lambda>r. in_rows r y) (map ?R [0..<?n]))
        = length (filter (\<lambda>k. in_rows (?R k) y) [0..<?n])"
    by (simp add: filter_map comp_def)
  also have "filter (\<lambda>k. in_rows (?R k) y) [0..<?n]
        = filter (\<lambda>k. k * ?c \<le> y \<and> y < k * ?c + (if k = ?n - 1 then ?F - k * ?c else ?c)) [0..<?n]"
    by (rule filter_cong) (simp_all add: in_rows_def vertical_region_nat [OF assms])
  also have "length \<dots> = (if y < ?F then 1 else 0)"
    using n by (intro strips_count) (simp_all add: div_mult_le_frame)
  finally show ?thesis by (simp add: vertical_loop_map)
qed

lemma vertical_columns:
  fixes gc fw fh :: u32
  assumes "r \<in> set (vertical_loop 0 gc rh fw fh [])"
  shows "in_columns r x \<longleftrightarrow> x < unat fw"
  using assms by (auto simp: vertical_loop_map in_columns_def vertical_region_def Let_def)

lemma vertical_partition:
  fixes gc fw fh :: u32
  assumes "gc \<noteq> 0"
  shows "exact_partition fw fh (vertical_loop 0 gc (fh div gc) fw fh [])"
proof -
  let ?rs = "vertical_loop 0 gc (fh div gc) fw fh []"
  have "length (owners ?rs x y) = (if x < unat fw \<and> y < unat fh then 1 else 0)" for x y
  proof -
    have "owners ?rs x y = filter (\<lambda>r. x < unat fw \<and> in_rows r y) ?rs"
      unfolding owners_def in_region_def
      by (rule filter_cong) (simp_all add: vertical_columns)
    then show ?thesis
      using vertical_rows_count [OF assms, of y fh fw] by (cases "x < unat fw") simp_all
  qed
  then show ?thesis by (simp add: exact_partition_def)
qed

lemma quadrant_loop_eq:
  "i \<le> gc \<Longrightarrow> quadrant_loop i gc hw hh fw fh acc =
     acc @ map (\<lambda>k. quadrant_region (word_of_nat k) hw hh fw fh) [unat i..<unat gc]"
proof (induction i gc hw hh fw fh acc rule: quadrant_loop.induct)
  case (1 i gc hw hh fw fh acc)
  show ?case
  proof (cases "i < gc")
    case True
    then have "i + 1 \<le> gc" by (rule inc_le)
    with True "1.IH" show ?thesis
      by (subst quadrant_loop.simps) (simp add: upt_unat_step [OF True])
  next
    case False
    with "1.prems" have "i = gc" by simp
    then show ?thesis by (subst quadrant_loop.simps) simp
  qed
qed

lemma quadrant_loop_map:
  "quadrant_loop 0 gc hw hh fw fh [] =
     map (\<lambda>k. quadrant_region (word_of_nat k) hw hh fw fh) [0..<unat gc]"
  by (simp add: quadrant_loop_eq)

lemma quadrant_loop_four:
  "quadrant_loop 0 4 hw hh fw fh [] =
     [quadrant_region 0 hw hh fw fh, quadrant_region 1 hw hh fw fh,
      quadrant_region 2 hw hh fw fh, quadrant_region 3 hw hh fw fh]"
  by (simp add: quadrant_loop.simps)

lemma unat_half: "unat ((w::u32) div 2) = unat w div 2"
  by (simp add: unat_div)

lemma unat_other_half: "unat ((w::u32) - w div 2) = unat w - unat w div 2"
  by (simp add: unat_sub unat_div word_le_nat_alt)

lemma four_quadrants_count:
  fixes fw fh :: u32
  shows "length (owners (quadrant_loop 0 4 (fw div 2) (fh div 2) fw fh []) x y)
         = (if x < unat fw \<and> y < unat fh then 1 else 0)"
  unfolding quadrant_loop_four owners_def
  by (auto simp add: quadrant_region_def in_region_def in_columns_def in_rows_def
      unat_half unat_other_half)

lemma filter_prefix_length:
  "length (filter P (take n xs)) \<le> length (filter P xs)"
proof -
  have "length (filter P xs) = length (filter P (take n xs)) + length (filter P (drop n xs))"
    by (metis append_take_drop_id filter_append length_append)
  then show ?thesis by simp
qed

lemma quadrants_count_le:
  fixes gc fw fh :: u32
  assumes "gc \<le> 4"
  shows "length (owners (quadrant_loop 0 gc (fw div 2) (fh div 2) fw fh []) x y)
         \<le> (if x < unat fw \<and> y < unat fh then 1 else 0)"
proof -
  let ?R = "\<lambda>k. quadrant_region (word_of_nat k) (fw div 2) (fh div 2) fw fh"
  have "unat gc \<le> 4" using assms by (simp add: word_le_nat_alt)
  then have "[0..<unat gc] = take (unat gc) [0..<unat (4::u32)]"
    by simp
  then have "quadrant_loop 0 gc (fw div 2) (fh div 2) fw fh []
             = take (unat gc) (quadrant_loop 0 4 (fw div 2) (fh div 2) fw fh [])"
    by (simp only: quadrant_loop_map take_map)
  then have "length (owners (quadrant_loop 0 gc (fw div 2) (fh div 2) fw fh []) x y)
             \<le> length (owners (quadrant_loop 0 4 (fw div 2) (fh div 2) fw fh []) x y)"
    by (simp add: owners_def filter_prefix_length)
  then show ?thesis by (simp only: four_quadrants_count)
qed

lemma quadrant_loop_take:
  fixes gc :: u32
  shows "quadrant_loop 0 (min 4 gc) hw hh fw fh []
         = take (unat gc) (quadrant_loop 0 4 hw hh fw fh [])"
proof -
  have "unat (min 4 gc) = min 4 (unat gc)"
    by (simp add: min_def word_le_nat_alt)
  then have "[0..<unat (min 4 gc)] = take (unat gc) [0..<unat (4::u32)]"
    by (simp add: min_def)
  then show ?thesis
    by (simp only: quadrant_loop_map take_map)
qed

lemma quadrant_split_regions:
  "ComputeQuadrantSplit m d =
     Inr (take (unat (GetActiveGpuCount m))
           [\<lparr>offsetX = 0, offsetY = 0,
             width = frameWidth d div 2, height = frameHeight d div 2, gpuIndex = 0\<rparr>,
            \<lparr>offsetX = frameWidth d div 2, offsetY = 0,
             width = frameWidth d - frameWidth d div 2, height = frameHeight d div 2,
             gpuIndex = 1\<rparr>,
            \<lparr>offsetX = 0, offsetY = frameHeight d div 2,
             width = frameWidth d div 2, height = frameHeight d - frameHeight d div 2,
             gpuIndex = 2\<rparr>,
            \<lparr>offsetX = frameWidth d div 2, offsetY = frameHeight d div 2,
             width = frameWidth d - frameWidth d div 2,
             height = frameHeight d - frameHeight d div 2, gpuIndex = 3\<rparr>])"
  by (simp add: ComputeQuadrantSplit_def Let_def quadrant_loop_take quadrant_loop_four
      quadrant_region_def)

section \<open>Horizontal split: widths and columns\<close>

lemma horizontal_widths_1920:
  "map width (horizontal_loop 0 3 (1920 div 3) 1920 fh []) = [640, 640, 640]"
  by (simp add: horizontal_loop.simps horizontal_region_def Let_def)

lemma horizontal_widths_1921:
  "map width (horizontal_loop 0 3 (1921 div 3) 1921 fh []) = [640, 640, 641]"
  by (simp add: horizontal_loop.simps horizontal_region_def Let_def)

text \<open>
  Claim C8. In horizontal mode with at least one active device, \<open>ComputeHorizontalSplit\<close>
  returns one region per device; every region but the last has width
  \<open>floor (frameWidth / count)\<close>, region \<open>k\<close> starts at column \<open>k * floor (frameWidth / count)\<close>,
  and the last region takes what is left, so that every column \<open>x < frameWidth\<close> lies in
  exactly one region and no other column lies in any. With three devices, width 1920 gives
  widths 640, 640, 640 and width 1921 gives 640, 640, 641.
\<close>

theorem horizontal_split_widths:
  assumes "1 \<le> GetActiveGpuCount m"
  shows "\<exists>rs. ComputeHorizontalSplit m d = Inr rs
           \<and> length rs = unat (GetActiveGpuCount m)
           \<and> (\<forall>k < length rs.
                 unat (offsetX (rs ! k)) = k * (unat (frameWidth d) div length rs)
               \<and> unat (width (rs ! k)) =
                   (if k = length rs - 1
                    then unat (frameWidth d) - k * (unat (frameWidth d) div length rs)
                    else unat (frameWidth d) div length rs))
           \<and> (\<forall>x. length (filter (\<lambda>r. in_columns r x) rs)
                     = (if x < unat (frameWidth d) then 1 else 0))
           \<and> (GetActiveGpuCount m = 3 \<and> frameWidth d = 1920 \<longrightarrow> map width rs = [640, 640, 640])
           \<and> (GetActiveGpuCount m = 3 \<and> frameWidth d = 1921 \<longrightarrow> map width rs = [640, 640, 641])"
proof -
  let ?gc = "GetActiveGpuCount m" and ?fw = "frameWidth d" and ?fh = "frameHeight d"
  let ?rs = "horizontal_loop 0 ?gc (?fw div ?gc) ?fw ?fh []"
  have gc: "?gc \<noteq> 0" using assms by (simp add: word_ge_one_iff)
  have run: "ComputeHorizontalSplit m d = Inr ?rs"
    using gc by (simp add: ComputeHorizontalSplit_def Let_def)
  have len: "length ?rs = unat ?gc"
    by (rule horizontal_loop_length)
  have nth: "unat (offsetX (?rs ! k)) = k * (unat ?fw div length ?rs)
           \<and> unat (width (?rs ! k)) =
               (if k = length ?rs - 1 then unat ?fw - k * (unat ?fw div length ?rs)
                else unat ?fw div length ?rs)" if "k < length ?rs" for k
    using that horizontal_region_nat(1,2) [OF gc, of k ?fw ?fh]
    by (simp add: len horizontal_loop_nth)
  have cols: "length (filter (\<lambda>r. in_columns r x) ?rs) = (if x < unat ?fw then 1 else 0)" for x
    using gc by (rule horizontal_columns_count)
  have ex1: "?gc = 3 \<and> ?fw = 1920 \<longrightarrow> map width ?rs = [640, 640, 640]"
    using horizontal_widths_1920 [of ?fh] by auto
  have ex2: "?gc = 3 \<and> ?fw = 1921 \<longrightarrow> map width ?rs = [640, 640, 641]"
    using horizontal_widths_1921 [of ?fh] by auto
  show ?thesis
  proof (intro exI [of _ ?rs] conjI allI impI)
    show "ComputeHorizontalSplit m d = Inr ?rs" by (rule run)
    show "length ?rs = unat ?gc" by (rule len)
    show "unat (offsetX (?rs ! k)) = k * (unat ?fw div length ?rs)" if "k < length ?rs" for k
      using nth [OF that] by (rule conjunct1)
    show "unat (width (?rs ! k)) =
               (if k = length ?rs - 1 then unat ?fw - k * (unat ?fw div length ?rs)
                else unat ?fw div length ?rs)" if "k < length ?rs" for k
      using nth [OF that] by (rule conjunct2)
    show "length (filter (\<lambda>r. in_columns r x) ?rs) = (if x < unat ?fw then 1 else 0)" for x
      by (rule cols)
    show "map width ?rs = [640, 640, 640]" if "?gc = 3 \<and> ?fw = 1920"
      using ex1 that by (rule mp)
    show "map width ?rs = [640, 640, 641]" if "?gc = 3 \<and> ?fw = 1921"
      using ex2 that by (rule mp)
  qed
qed

text \<open>The instance with three devices and a frame of 1921 by 1080.\<close>

theorem horizontal_split_widths_witness:
  "1 \<le> GetActiveGpuCount (sample_manager [0, 1, 2])
   \<and> (\<exists>rs. ComputeHorizontalSplit (sample_manager [0, 1, 2])
               (SetFrameResolution VkFrameDistributor_new 1921 1080) = Inr rs
          \<and> map width rs = [640, 640, 641] \<and> map offsetX rs = [0, 640, 1280])"
proof -
  have h: "1 \<le> GetActiveGpuCount (sample_manager [0, 1, 2])"
    by (simp add: GetActiveGpuCount_def sample_manager_def)
  have c: "GetActiveGpuCount (sample_manager [0, 1, 2]) = 3"
    by (simp add: GetActiveGpuCount_def sample_manager_def)
  have w: "frameWidth (SetFrameResolution VkFrameDistributor_new 1921 1080) = 1921"
    by (simp add: SetFrameResolution_def)
  from horizontal_split_widths [OF h, of "SetFrameResolution VkFrameDistributor_new 1921 1080"]
  obtain rs where rs: "ComputeHorizontalSplit (sample_manager [0, 1, 2])
               (SetFrameResolution VkFrameDistributor_new 1921 1080) = Inr rs"
    and widths: "map width rs = [640, 640, 641]"
    using c w by auto
  have "map offsetX rs = [0, 640, 1280]"
    using rs
    by (auto simp add: ComputeHorizontalSplit_def c w Let_def horizontal_loop.simps
        horizontal_region_def)
  with h rs widths show ?thesis by (intro conjI exI [of _ rs])
qed

section \<open>Frame regions as a partition of the frame\<close>

lemma exact_partition_count_le:
  "exact_partition w h rs \<Longrightarrow>
     length (owners rs x y) \<le> (if x < unat w \<and> y < unat h then 1 else 0)"
  by (simp add: exact_partition_def)

lemma horizontal_split_partition:
  assumes "GetActiveGpuCount m \<noteq> 0"
  shows "\<exists>rs. ComputeHorizontalSplit m d = Inr rs
           \<and> exact_partition (frameWidth d) (frameHeight d) rs"
  using assms by (simp add: ComputeHorizontalSplit_def Let_def horizontal_partition)

lemma vertical_split_partition:
  assumes "GetActiveGpuCount m \<noteq> 0"
  shows "\<exists>rs. ComputeVerticalSplit m d = Inr rs
           \<and> exact_partition (frameWidth d) (frameHeight d) rs"
  using assms by (simp add: ComputeVerticalSplit_def Let_def vertical_partition)

lemma quadrant_split_disjoint:
  "\<exists>rs. ComputeQuadrantSplit m d = Inr rs
     \<and> (\<forall>x y. length (owners rs x y)
               \<le> (if x < unat (frameWidth d) \<and> y < unat (frameHeight d) then 1 else 0))"
  by (simp add: ComputeQuadrantSplit_def Let_def quadrants_count_le)

lemma quadrant_split_partition:
  assumes "4 \<le> GetActiveGpuCount m"
  shows "\<exists>rs. ComputeQuadrantSplit m d = Inr rs
           \<and> exact_partition (frameWidth d) (frameHeight d) rs"
proof -
  have "min 4 (GetActiveGpuCount m) = 4" using assms by (simp add: min_def)
  then show ?thesis
    by (simp add: ComputeQuadrantSplit_def Let_def exact_partition_def four_quadrants_count)
qed

lemma partition_result:
  assumes "\<exists>rs. res = Inr rs \<and> exact_partition w h rs"
  shows "\<exists>rs. res = Inr rs
           \<and> (\<forall>x y. length (owners rs x y) \<le> (if x < unat w \<and> y < unat h then 1 else 0))
           \<and> (Q \<longrightarrow> exact_partition w h rs)"
proof -
  from assms obtain rs where rs: "res = Inr rs" and part: "exact_partition w h rs"
    by blast
  have "\<forall>x y. length (owners rs x y) \<le> (if x < unat w \<and> y < unat h then 1 else 0)"
    using part by (simp only: exact_partition_count_le simp_thms)
  with rs part show ?thesis by (intro exI [of _ rs] conjI impI)
qed

lemma frame_regions_disjoint_and_cover:
  assumes "1 \<le> GetActiveGpuCount m"
  shows "\<exists>rs. ComputeFrameRegions m d = Inr rs
           \<and> (\<forall>x y. length (owners rs x y)
                     \<le> (if x < unat (frameWidth d) \<and> y < unat (frameHeight d) then 1 else 0))
           \<and> ((distributionMode d = SPLIT_FRAME_QUADRANTS \<longrightarrow> 4 \<le> GetActiveGpuCount m)
                \<longrightarrow> exact_partition (frameWidth d) (frameHeight d) rs)"
proof -
  have gc: "GetActiveGpuCount m \<noteq> 0" using assms by (simp add: word_ge_one_iff)
  show ?thesis
  proof (cases "distributionMode d")
    case SPLIT_FRAME_HORIZONTAL
    then have "ComputeFrameRegions m d = ComputeHorizontalSplit m d"
      by (simp add: ComputeFrameRegions_def)
    with horizontal_split_partition [OF gc, of d] show ?thesis
      by (simp only: partition_result)
  next
    case SPLIT_FRAME_VERTICAL
    then have "ComputeFrameRegions m d = ComputeVerticalSplit m d"
      by (simp add: ComputeFrameRegions_def)
    with vertical_split_partition [OF gc, of d] show ?thesis
      by (simp only: partition_result)
  next
    case SPLIT_FRAME_QUADRANTS
    show ?thesis
    proof (cases "4 \<le> GetActiveGpuCount m")
      case True
      from SPLIT_FRAME_QUADRANTS have "ComputeFrameRegions m d = ComputeQuadrantSplit m d"
        by (simp add: ComputeFrameRegions_def)
      with quadrant_split_partition [OF True, of d] show ?thesis
        by (simp only: partition_result)
    next
      case False
      from SPLIT_FRAME_QUADRANTS have "ComputeFrameRegions m d = ComputeQuadrantSplit m d"
        by (simp add: ComputeFrameRegions_def)
      with SPLIT_FRAME_QUADRANTS False quadrant_split_disjoint [of m d] show ?thesis
        by auto
    qed
  next
    case AFR_ALTERNATING
    then have "ComputeFrameRegions m d = ComputeHorizontalSplit m d"
      by (simp add: ComputeFrameRegions_def)
    with horizontal_split_partition [OF gc, of d] show ?thesis
      by (simp only: partition_result)
  next
    case SFR_OPTIMIZED
    then have "ComputeFrameRegions m d = ComputeHorizontalSplit m d"
      by (simp add: ComputeFrameRegions_def)
    with horizontal_split_partition [OF gc, of d] show ?thesis
      by (simp only: partition_result)
  qed
qed

text \<open>
  Claim C1, as the code has it. With at least one active device \<open>ComputeFrameRegions\<close>
  returns regions that never overlap and never leave the frame, in every mode. They cover
  the frame without a gap, and so are an exact partition of
  \<open>[0, frameWidth) \<times> [0, frameHeight)\<close>, in horizontal and vertical mode (and in the two
  modes that fall back to horizontal) for every count, and in quadrant mode when at least
  four devices are active. In quadrant mode the regions returned are the first \<open>count\<close>
  of the four quadrants top-left, top-right, bottom-left, bottom-right (all four from four
  devices on), split at \<open>floor (frameWidth / 2)\<close> and \<open>floor (frameHeight / 2)\<close>; with
  fewer than four devices the quadrants that are left out stay unassigned.
\<close>

theorem ComputeFrameRegions_partition:
  assumes "1 \<le> GetActiveGpuCount m"
  shows "\<exists>rs. ComputeFrameRegions m d = Inr rs
           \<and> (\<forall>x y. length (owners rs x y)
                     \<le> (if x < unat (frameWidth d) \<and> y < unat (frameHeight d) then 1 else 0))
           \<and> ((distributionMode d = SPLIT_FRAME_QUADRANTS \<longrightarrow> 4 \<le> GetActiveGpuCount m)
                \<longrightarrow> exact_partition (frameWidth d) (frameHeight d) rs)
           \<and> (distributionMode d = SPLIT_FRAME_QUADRANTS \<longrightarrow>
                rs = take (unat (GetActiveGpuCount m))
                       [\<lparr>offsetX = 0, offsetY = 0,
                         width = frameWidth d div 2, height = frameHeight d div 2,
                         gpuIndex = 0\<rparr>,
                        \<lparr>offsetX = frameWidth d div 2, offsetY = 0,
                         width = frameWidth d - frameWidth d div 2,
                         height = frameHeight d div 2, gpuIndex = 1\<rparr>,
                        \<lparr>offsetX = 0, offsetY = frameHeight d div 2,
                         width = frameWidth d div 2,
                         height = frameHeight d - frameHeight d div 2, gpuIndex = 2\<rparr>,
                        \<lparr>offsetX = frameWidth d div 2, offsetY = frameHeight d div 2,
                         width = frameWidth d - frameWidth d div 2,
                         height = frameHeight d - frameHeight d div 2, gpuIndex = 3\<rparr>])"
proof -
  from frame_regions_disjoint_and_cover [OF assms, of d]
  obtain rs where rs: "ComputeFrameRegions m d = Inr rs"
    and disjoint: "\<forall>x y. length (owners rs x y)
                     \<le> (if x < unat (frameWidth d) \<and> y < unat (frameHeight d) then 1 else 0)"
    and cover: "(distributionMode d = SPLIT_FRAME_QUADRANTS \<longrightarrow> 4 \<le> GetActiveGpuCount m)
                \<longrightarrow> exact_partition (frameWidth d) (frameHeight d) rs"
    by blast
  have quadrants: "rs = take (unat (GetActiveGpuCount m))
                       [\<lparr>offsetX = 0, offsetY = 0,
                         width = frameWidth d div 2, height = frameHeight d div 2,
                         gpuIndex = 0\<rparr>,
                        \<lparr>offsetX = frameWidth d div 2, offsetY = 0,
                         width = frameWidth d - frameWidth d div 2,
                         height = frameHeight d div 2, gpuIndex = 1\<rparr>,
                        \<lparr>offsetX = 0, offsetY = frameHeight d div 2,
                         width = frameWidth d div 2,
                         height = frameHeight d - frameHeight d div 2, gpuIndex = 2\<rparr>,
                        \<lparr>offsetX = frameWidth d div 2, offsetY = frameHeight d div 2,
                         width = frameWidth d - frameWidth d div 2,
                         height = frameHeight d - frameHeight d div 2, gpuIndex = 3\<rparr>]"
    if "distributionMode d = SPLIT_FRAME_QUADRANTS"
  proof -
    from that have "ComputeFrameRegions m d = ComputeQuadrantSplit m d"
      by (simp add: ComputeFrameRegions_def)
    with rs have "ComputeQuadrantSplit m d = Inr rs" by simp
    then show ?thesis
      by (simp only: quadrant_split_regions sum.inject)
  qed
  from quadrants
  have "distributionMode d = SPLIT_FRAME_QUADRANTS \<longrightarrow>
          rs = take (unat (GetActiveGpuCount m))
                       [\<lparr>offsetX = 0, offsetY = 0,
                         width = frameWidth d div 2, height = frameHeight d div 2,
                         gpuIndex = 0\<rparr>,
                        \<lparr>offsetX = frameWidth d div 2, offsetY = 0,
                         width = frameWidth d - frameWidth d div 2,
                         height = frameHeight d div 2, gpuIndex = 1\<rparr>,
                        \<lparr>offsetX = 0, offsetY = frameHeight d div 2,
                         width = frameWidth d div 2,
                         height = frameHeight d - frameHeight d div 2, gpuIndex = 2\<rparr>,
                        \<lparr>offsetX = frameWidth d div 2, offsetY = frameHeight d div 2,
                         width = frameWidth d - frameWidth d div 2,
                         height = frameHeight d - frameHeight d div 2, gpuIndex = 3\<rparr>]"
    by (rule impI)
  with rs disjoint cover show ?thesis
    by (intro exI [of _ rs] conjI)
qed

text \<open>
  The instances in quadrant mode on a frame of 100 by 100: four devices give the four
  quadrants, an exact partition; two devices give the two top quadrants only.
\<close>

theorem ComputeFrameRegions_partition_witness:
  "1 \<le> GetActiveGpuCount (sample_manager [0, 1, 2, 3])
   \<and> distributionMode quadrant_frame_100 = SPLIT_FRAME_QUADRANTS
   \<and> 4 \<le> GetActiveGpuCount (sample_manager [0, 1, 2, 3])
   \<and> (\<exists>rs. ComputeFrameRegions (sample_manager [0, 1, 2, 3]) quadrant_frame_100 = Inr rs
          \<and> exact_partition 100 100 rs
          \<and> rs = [\<lparr>offsetX = 0, offsetY = 0, width = 50, height = 50, gpuIndex = 0\<rparr>,
                  \<lparr>offsetX = 50, offsetY = 0, width = 50, height = 50, gpuIndex = 1\<rparr>,
                  \<lparr>offsetX = 0, offsetY = 50, width = 50, height = 50, gpuIndex = 2\<rparr>,
                  \<lparr>offsetX = 50, offsetY = 50, width = 50, height = 50, gpuIndex = 3\<rparr>])
   \<and> 1 \<le> GetActiveGpuCount (sample_manager [0, 1])
   \<and> ComputeFrameRegions (sample_manager [0, 1]) quadrant_frame_100
       = Inr [\<lparr>offsetX = 0, offsetY = 0, width = 50, height = 50, gpuIndex = 0\<rparr>,
              \<lparr>offsetX = 50, offsetY = 0, width = 50, height = 50, gpuIndex = 1\<rparr>]"
proof -
  let ?m = "sample_manager [0, 1, 2, 3]" and ?m2 = "sample_manager [0, 1]"
  have c: "GetActiveGpuCount ?m = 4" "GetActiveGpuCount ?m2 = 2"
    by (simp_all add: GetActiveGpuCount_def sample_manager_def)
  have h: "1 \<le> GetActiveGpuCount ?m" and h2: "1 \<le> GetActiveGpuCount ?m2"
    by (simp_all add: c)
  have four: "4 \<le> GetActiveGpuCount ?m" by (simp add: c)
  have wh: "frameWidth quadrant_frame_100 = 100" "frameHeight quadrant_frame_100 = 100"
    "distributionMode quadrant_frame_100 = SPLIT_FRAME_QUADRANTS"
    by (simp_all add: quadrant_frame_100_def SetDistributionMode_def SetFrameResolution_def)
  from ComputeFrameRegions_partition [OF h, of quadrant_frame_100] four
  obtain rs where rs: "ComputeFrameRegions ?m quadrant_frame_100 = Inr rs"
    and part: "exact_partition 100 100 rs"
    and list: "rs = [\<lparr>offsetX = 0, offsetY = 0, width = 50, height = 50, gpuIndex = 0\<rparr>,
                  \<lparr>offsetX = 50, offsetY = 0, width = 50, height = 50, gpuIndex = 1\<rparr>,
                  \<lparr>offsetX = 0, offsetY = 50, width = 50, height = 50, gpuIndex = 2\<rparr>,
                  \<lparr>offsetX = 50, offsetY = 50, width = 50, height = 50, gpuIndex = 3\<rparr>]"
    by (auto simp: wh c)
  from ComputeFrameRegions_partition [OF h2, of quadrant_frame_100]
  have two: "ComputeFrameRegions ?m2 quadrant_frame_100
       = Inr [\<lparr>offsetX = 0, offsetY = 0, width = 50, height = 50, gpuIndex = 0\<rparr>,
              \<lparr>offsetX = 50, offsetY = 0, width = 50, height = 50, gpuIndex = 1\<rparr>]"
    by (auto simp: wh c)
  from h wh(3) four rs part list h2 two show ?thesis
    by (intro conjI exI [of _ rs])
qed

text \<open>
  Claim C1 as stated fails in quadrant mode with fewer than four devices: with one device on
  a frame of 100 by 100 only the top-left quadrant is returned, and pixel \<open>(99, 99)\<close> lies
  in no region.
\<close>

theorem quadrant_one_device_gap:
  "ComputeFrameRegions (sample_manager [0]) quadrant_frame_100
     = Inr [\<lparr>offsetX = 0, offsetY = 0, width = 50, height = 50, gpuIndex = 0\<rparr>]
   \<and> \<not> exact_partition 100 100
         [\<lparr>offsetX = 0, offsetY = 0, width = 50, height = 50, gpuIndex = 0\<rparr>]"
proof
  have c: "GetActiveGpuCount (sample_manager [0]) = 1"
    by (simp add: GetActiveGpuCount_def sample_manager_def)
  have wh: "frameWidth quadrant_frame_100 = 100" "frameHeight quadrant_frame_100 = 100"
    "distributionMode quadrant_frame_100 = SPLIT_FRAME_QUADRANTS"
    by (simp_all add: quadrant_frame_100_def SetDistributionMode_def SetFrameResolution_def)
  show "ComputeFrameRegions (sample_manager [0]) quadrant_frame_100
     = Inr [\<lparr>offsetX = 0, offsetY = 0, width = 50, height = 50, gpuIndex = 0\<rparr>]"
    by (simp add: ComputeFrameRegions_def ComputeQuadrantSplit_def wh c Let_def
        quadrant_loop.simps quadrant_region_def)
  show "\<not> exact_partition 100 100
         [\<lparr>offsetX = 0, offsetY = 0, width = 50, height = 50, gpuIndex = 0\<rparr>]"
  proof
    assume "exact_partition 100 100
         [\<lparr>offsetX = 0, offsetY = 0, width = 50, height = 50, gpuIndex = 0\<rparr>]"
    then have "length (owners [\<lparr>offsetX = 0, offsetY = 0, width = 50, height = 50, gpuIndex = 0\<rparr>] 99 99)
               = (if (99::nat) < unat (100::u32) \<and> (99::nat) < unat (100::u32) then 1 else 0)"
      unfolding exact_partition_def by blast
    then show False
      by (simp add: owners_def in_region_def in_columns_def in_rows_def)
  qed
qed

section \<open>No active device\<close>

text \<open>
  Claim C3 asks for a fail-fast error when no device is active. The code has no such check:
  on a registry without devices the horizontal and the vertical split run into the division
  by zero itself, and the quadrant split returns an empty list without any error. So does
  \<open>ComputeFrameRegions\<close>, mode by mode; a distributor and a registry as their
  constructors leave them divide by zero.
\<close>

theorem zero_devices_division_by_zero:
  "ComputeHorizontalSplit (m\<lparr>gpuDevices := []\<rparr>) d = Inl DivisionByZero
   \<and> ComputeVerticalSplit (m\<lparr>gpuDevices := []\<rparr>) d = Inl DivisionByZero
   \<and> ComputeQuadrantSplit (m\<lparr>gpuDevices := []\<rparr>) d = Inr []
   \<and> ComputeFrameRegions (m\<lparr>gpuDevices := []\<rparr>) d
       = (case distributionMode d of
            SPLIT_FRAME_VERTICAL \<Rightarrow> Inl DivisionByZero
          | SPLIT_FRAME_QUADRANTS \<Rightarrow> Inr []
          | _ \<Rightarrow> Inl DivisionByZero)
   \<and> ComputeFrameRegions VkMultiGpuManager_new VkFrameDistributor_new = Inl DivisionByZero"
proof -
  have z: "GetActiveGpuCount (m\<lparr>gpuDevices := []\<rparr>) = 0"
    "GetActiveGpuCount VkMultiGpuManager_new = 0"
    by (simp_all add: GetActiveGpuCount_def VkMultiGpuManager_new_def)
  have h: "ComputeHorizontalSplit (m\<lparr>gpuDevices := []\<rparr>) d = Inl DivisionByZero"
    "ComputeHorizontalSplit VkMultiGpuManager_new VkFrameDistributor_new = Inl DivisionByZero"
    by (simp_all add: ComputeHorizontalSplit_def z)
  have v: "ComputeVerticalSplit (m\<lparr>gpuDevices := []\<rparr>) d = Inl DivisionByZero"
    by (simp add: ComputeVerticalSplit_def z)
  have q: "ComputeQuadrantSplit (m\<lparr>gpuDevices := []\<rparr>) d = Inr []"
    by (simp add: ComputeQuadrantSplit_def z Let_def quadrant_loop.simps)
  have "distributionMode VkFrameDistributor_new = SPLIT_FRAME_HORIZONTAL"
    by (simp add: VkFrameDistributor_new_def)
  with h v q show ?thesis
    by (simp add: ComputeFrameRegions_def split: FrameDistributionMode.split)
qed

section \<open>Completion counters\<close>

lemma sync_step_counters_length:
  "length (currentFrameIds (sync_step s c)) = length (currentFrameIds s)"
  by (cases c)
    (simp_all add: CreateTimelineSemaphore_def DestroySemaphore_def SignalFrameComplete_def
      WaitForFrameComplete_def InsertInterGpuBarrier_def CreateCrossGpuEvent_def SignalEvent_def
      WaitForEvent_def Let_def)

lemma sync_step_semaphores_length:
  "length (timelineSemaphores (sync_step s c)) = length (timelineSemaphores s)"
  by (cases c)
    (simp_all add: CreateTimelineSemaphore_def DestroySemaphore_def SignalFrameComplete_def
      WaitForFrameComplete_def InsertInterGpuBarrier_def CreateCrossGpuEvent_def SignalEvent_def
      WaitForEvent_def Let_def)

lemma sync_run_counters_length:
  "length (currentFrameIds (sync_run s cs)) = length (currentFrameIds s)"
  by (induction cs arbitrary: s) (simp_all add: sync_step_counters_length)

lemma sync_run_semaphores_length:
  "length (timelineSemaphores (sync_run s cs)) = length (timelineSemaphores s)"
  by (induction cs arbitrary: s) (simp_all add: sync_step_semaphores_length)

lemma sync_run_append: "sync_run s (cs @ ds) = sync_run (sync_run s cs) ds"
  by (induction cs arbitrary: s) simp_all

lemma ascending_signals_append:
  "ascending_signals s (cs @ ds) \<Longrightarrow> ascending_signals (sync_run s cs) ds"
proof (induction s cs rule: ascending_signals.induct)
qed simp_all

lemma ascending_step_counter:
  assumes "ascending_signals s (c # cs)" and "d < length (currentFrameIds s)"
  shows "currentFrameIds s ! d \<le> currentFrameIds (sync_step s c) ! d"
proof (cases c)
  case (OpSignalFrameComplete g fid)
  with assms show ?thesis
    by (cases "unat g = d") (auto simp: SignalFrameComplete_def)
qed (simp_all add: CreateTimelineSemaphore_def DestroySemaphore_def
      WaitForFrameComplete_def InsertInterGpuBarrier_def CreateCrossGpuEvent_def SignalEvent_def
      WaitForEvent_def Let_def)

lemma ascending_signals_tail:
  "ascending_signals s (c # cs) \<Longrightarrow> ascending_signals (sync_step s c) cs"
  by (cases c) simp_all

lemma ascending_run_counter:
  "ascending_signals s cs \<Longrightarrow> d < length (currentFrameIds s) \<Longrightarrow>
     currentFrameIds s ! d \<le> currentFrameIds (sync_run s cs) ! d"
proof (induction cs arbitrary: s)
  case Nil
  then show ?case by simp
next
  case (Cons c cs)
  have "currentFrameIds s ! d \<le> currentFrameIds (sync_step s c) ! d"
    using Cons.prems by (rule ascending_step_counter)
  also have "\<dots> \<le> currentFrameIds (sync_run (sync_step s c) cs) ! d"
    using Cons.prems by (intro Cons.IH ascending_signals_tail) (simp_all add: sync_step_counters_length)
  finally show ?case by simp
qed

text \<open>
  Claim C4, as the code has it. Every counter starts at 0. \<open>SignalFrameComplete\<close> on a
  device in range overwrites that device's counter with the id it is given, whatever the
  counter was, and no other operation changes a counter. So along a sequence of operations
  the counter of a device in range never decreases provided the caller signals ascending
  ids, that is, every \<open>SignalFrameComplete\<close> carries an id not below the current counter
  of the device it signals.
\<close>

theorem counters_start_at_zero_and_follow_signals:
  "currentFrameIds (VkMultiGpuSynchronizer_new m) = replicate (unat (GetActiveGpuCount m)) 0
   \<and> (unat g < length (currentFrameIds s) \<longrightarrow>
        currentFrameIds (SignalFrameComplete s g fid) = (currentFrameIds s)[unat g := fid]
        \<and> currentFrameIds (SignalFrameComplete s g fid) ! unat g = fid)
   \<and> ((\<forall>g' fid'. c \<noteq> OpSignalFrameComplete g' fid') \<longrightarrow>
          currentFrameIds (sync_step s c) = currentFrameIds s)
   \<and> (ascending_signals s (cs @ ds) \<and> d < length (currentFrameIds s) \<longrightarrow>
        currentFrameIds (sync_run s cs) ! d \<le> currentFrameIds (sync_run s (cs @ ds)) ! d)"
proof (intro conjI impI allI)
  show "currentFrameIds (VkMultiGpuSynchronizer_new m) = replicate (unat (GetActiveGpuCount m)) 0"
    by (simp add: VkMultiGpuSynchronizer_new_def Let_def)
  show "currentFrameIds (SignalFrameComplete s g fid) = (currentFrameIds s)[unat g := fid]"
    if "unat g < length (currentFrameIds s)"
    using that by (simp add: SignalFrameComplete_def)
  show "currentFrameIds (SignalFrameComplete s g fid) ! unat g = fid"
    if "unat g < length (currentFrameIds s)"
    using that by (simp add: SignalFrameComplete_def)
  show "currentFrameIds (sync_step s c) = currentFrameIds s"
    if "\<forall>g' fid'. c \<noteq> OpSignalFrameComplete g' fid'"
    using that
    by (cases c)
      (simp_all add: CreateTimelineSemaphore_def DestroySemaphore_def
        WaitForFrameComplete_def InsertInterGpuBarrier_def CreateCrossGpuEvent_def SignalEvent_def
        WaitForEvent_def Let_def)
  show "currentFrameIds (sync_run s cs) ! d \<le> currentFrameIds (sync_run s (cs @ ds)) ! d"
    if "ascending_signals s (cs @ ds) \<and> d < length (currentFrameIds s)"
  proof -
    from that have "ascending_signals (sync_run s cs) ds"
      by (simp add: ascending_signals_append)
    moreover from that have "d < length (currentFrameIds (sync_run s cs))"
      by (simp add: sync_run_counters_length)
    ultimately show ?thesis
      unfolding sync_run_append by (rule ascending_run_counter)
  qed
qed

text \<open>The instance on a synchronizer over one device, signalling 3 and then 5.\<close>

theorem counters_start_at_zero_and_follow_signals_witness:
  "unat (0::u32) < length (currentFrameIds one_gpu_sync)
   \<and> currentFrameIds (SignalFrameComplete one_gpu_sync 0 5) ! unat (0::u32) = 5
   \<and> (\<forall>g fid. OpWaitForFrameComplete 0 9 \<noteq> OpSignalFrameComplete g fid)
   \<and> currentFrameIds (sync_step one_gpu_sync (OpWaitForFrameComplete 0 9)) = currentFrameIds one_gpu_sync
   \<and> ascending_signals one_gpu_sync ([OpSignalFrameComplete 0 3] @ [OpCreateTimelineSemaphore 0 0, OpSignalFrameComplete 0 5])
   \<and> (0::nat) < length (currentFrameIds one_gpu_sync)
   \<and> currentFrameIds (sync_run one_gpu_sync [OpSignalFrameComplete 0 3]) ! 0
       \<le> currentFrameIds (sync_run one_gpu_sync
             ([OpSignalFrameComplete 0 3] @ [OpCreateTimelineSemaphore 0 0, OpSignalFrameComplete 0 5])) ! 0"
proof -
  have len: "length (currentFrameIds one_gpu_sync) = 1"
    by (simp add: one_gpu_sync_def VkMultiGpuSynchronizer_new_def GetActiveGpuCount_def
        sample_manager_def)
  have asc: "ascending_signals one_gpu_sync
      ([OpSignalFrameComplete 0 3] @ [OpCreateTimelineSemaphore 0 0, OpSignalFrameComplete 0 5])"
    by (simp add: one_gpu_sync_def VkMultiGpuSynchronizer_new_def GetActiveGpuCount_def
        sample_manager_def SignalFrameComplete_def CreateTimelineSemaphore_def Let_def)
  note inst = counters_start_at_zero_and_follow_signals
    [of "sample_manager [0]" 0 one_gpu_sync 5 "OpWaitForFrameComplete 0 9"
      "[OpSignalFrameComplete 0 3]"
      "[OpCreateTimelineSemaphore 0 0, OpSignalFrameComplete 0 5]" 0]
  from inst len asc show ?thesis by simp
qed

text \<open>
  Claim C4 as stated fails: after \<open>SignalFrameComplete(0, 5)\<close> the counter of device 0 is
  5, and a following \<open>SignalFrameComplete(0, 3)\<close> lowers it to 3.
\<close>

theorem signal_lowers_counter:
  "currentFrameIds (sync_run one_gpu_sync [OpSignalFrameComplete 0 5]) ! 0 = 5
   \<and> currentFrameIds (sync_run one_gpu_sync [OpSignalFrameComplete 0 5, OpSignalFrameComplete 0 3]) ! 0 = 3"
  by (simp add: one_gpu_sync_def VkMultiGpuSynchronizer_new_def GetActiveGpuCount_def
      sample_manager_def SignalFrameComplete_def Let_def)

section \<open>Waiting for a frame\<close>

text \<open>
  Claim C2, as the code has it: \<open>WaitForFrameComplete\<close> returns at once for every device
  and every frame id, and leaves the synchronizer (counters and semaphore lists) as it was.
  It neither reads the counter nor waits for it, and the calls that follow it run as if it
  had not been made.
\<close>

theorem WaitForFrameComplete_returns_at_once:
  "WaitForFrameComplete s g fid = s
   \<and> currentFrameIds (WaitForFrameComplete s g fid) = currentFrameIds s
   \<and> sync_run s (OpWaitForFrameComplete g fid # cs) = sync_run s cs"
  by (simp add: WaitForFrameComplete_def)

text \<open>
  Claim C2 as stated fails: on a fresh synchronizer over one device the counter of device 0
  is 0, and \<open>WaitForFrameComplete(0, 5)\<close> returns with the counter still 0, below 5.
\<close>

theorem wait_returns_below_id:
  "currentFrameIds (WaitForFrameComplete one_gpu_sync 0 5) ! 0 = 0
   \<and> \<not> (5 \<le> currentFrameIds (WaitForFrameComplete one_gpu_sync 0 5) ! 0)"
  by (simp add: one_gpu_sync_def VkMultiGpuSynchronizer_new_def GetActiveGpuCount_def
      sample_manager_def WaitForFrameComplete_def Let_def)

section \<open>Placement records\<close>

text \<open>
  Claim C9. \<open>FreeBuffer\<close> on a handle without a record leaves the memory manager as it
  was, and right after \<open>AllocateBuffer\<close> the buffer map holds, at the returned handle,
  exactly the strategy that was passed in.
\<close>

theorem free_unrecorded_and_lookup_after_allocate:
  "(bufferStrategies mm b = None \<longrightarrow> FreeBuffer mm b = mm)
   \<and> bufferStrategies (snd (AllocateBuffer mm usage sz strategy targets))
        (fst (AllocateBuffer mm usage sz strategy targets)) = Some strategy"
proof (intro conjI impI)
  assume "bufferStrategies mm b = None"
  then have "(bufferStrategies mm)(b := None) = bufferStrategies mm"
    by (metis fun_upd_triv)
  then show "FreeBuffer mm b = mm"
    by (simp add: FreeBuffer_def)
next
  show "bufferStrategies (snd (AllocateBuffer mm usage sz strategy targets))
        (fst (AllocateBuffer mm usage sz strategy targets)) = Some strategy"
    by (simp add: AllocateBuffer_def Let_def)
qed

text \<open>The instance on a fresh memory manager, freeing handle 7.\<close>

theorem free_unrecorded_and_lookup_after_allocate_witness:
  "bufferStrategies VkMultiGpuMemoryManager_new 7 = None
   \<and> FreeBuffer VkMultiGpuMemoryManager_new 7 = VkMultiGpuMemoryManager_new
   \<and> bufferStrategies (snd (AllocateBuffer VkMultiGpuMemoryManager_new 0 256 PINNED_HOST [0, 1]))
        (fst (AllocateBuffer VkMultiGpuMemoryManager_new 0 256 PINNED_HOST [0, 1])) = Some PINNED_HOST"
  using free_unrecorded_and_lookup_after_allocate
    [of VkMultiGpuMemoryManager_new 7 0 256 PINNED_HOST "[0, 1]"]
  by (simp add: VkMultiGpuMemoryManager_new_def)

lemma mem_step_buffer_dom:
  "dom (bufferStrategies mm) \<subseteq> {VK_NULL_HANDLE} \<Longrightarrow>
     dom (bufferStrategies (mem_step mm c)) \<subseteq> {VK_NULL_HANDLE}"
  by (cases c)
    (auto simp: AllocateBuffer_def AllocateImage_def FreeBuffer_def FreeImage_def
      CopyBufferBetweenGpus_def ReplicateBufferToAllGpus_def MapMemory_def UnmapMemory_def
      Let_def split: if_splits)

lemma mem_step_image_dom:
  "dom (imageStrategies mm) \<subseteq> {VK_NULL_HANDLE} \<Longrightarrow>
     dom (imageStrategies (mem_step mm c)) \<subseteq> {VK_NULL_HANDLE}"
  by (cases c)
    (auto simp: AllocateBuffer_def AllocateImage_def FreeBuffer_def FreeImage_def
      CopyBufferBetweenGpus_def ReplicateBufferToAllGpus_def MapMemory_def UnmapMemory_def
      Let_def split: if_splits)

lemma mem_run_buffer_dom:
  "dom (bufferStrategies mm) \<subseteq> {VK_NULL_HANDLE} \<Longrightarrow>
     dom (bufferStrategies (mem_run mm cs)) \<subseteq> {VK_NULL_HANDLE}"
  by (induction cs arbitrary: mm) (simp_all add: mem_step_buffer_dom)

lemma mem_run_image_dom:
  "dom (imageStrategies mm) \<subseteq> {VK_NULL_HANDLE} \<Longrightarrow>
     dom (imageStrategies (mem_run mm cs)) \<subseteq> {VK_NULL_HANDLE}"
  by (induction cs arbitrary: mm) (simp_all add: mem_step_image_dom)

lemma card_sub_singleton: "A \<subseteq> {a} \<Longrightarrow> card A \<le> 1"
  by (metis card.empty card.insert empty_iff finite.emptyI card_mono finite.insertI One_nat_def)

text \<open>
  Claim C10. \<open>AllocateBuffer\<close> and \<open>AllocateImage\<close> return the null handle whatever
  their arguments. Hence, after any sequence of calls on a fresh memory manager, each of
  the two maps holds at most one entry, at the null handle, and a second allocation replaces
  the strategy recorded by the first.
\<close>

theorem allocations_share_the_null_handle:
  "fst (AllocateBuffer mm usage sz strategy targets) = VK_NULL_HANDLE
   \<and> fst (AllocateImage mm info strategy targets) = VK_NULL_HANDLE
   \<and> dom (bufferStrategies (mem_run VkMultiGpuMemoryManager_new cs)) \<subseteq> {VK_NULL_HANDLE}
   \<and> card (dom (bufferStrategies (mem_run VkMultiGpuMemoryManager_new cs))) \<le> 1
   \<and> dom (imageStrategies (mem_run VkMultiGpuMemoryManager_new cs)) \<subseteq> {VK_NULL_HANDLE}
   \<and> card (dom (imageStrategies (mem_run VkMultiGpuMemoryManager_new cs))) \<le> 1
   \<and> bufferStrategies (snd (AllocateBuffer (snd (AllocateBuffer mm usage sz strategy targets))
                               usage2 sz2 strategy2 targets2))
       = (bufferStrategies mm)(VK_NULL_HANDLE \<mapsto> strategy2)
   \<and> imageStrategies (snd (AllocateImage (snd (AllocateImage mm info strategy targets))
                               info2 strategy2 targets2))
       = (imageStrategies mm)(VK_NULL_HANDLE \<mapsto> strategy2)"
proof -
  have b: "dom (bufferStrategies (mem_run VkMultiGpuMemoryManager_new cs)) \<subseteq> {VK_NULL_HANDLE}"
    by (rule mem_run_buffer_dom) (simp add: VkMultiGpuMemoryManager_new_def)
  have i: "dom (imageStrategies (mem_run VkMultiGpuMemoryManager_new cs)) \<subseteq> {VK_NULL_HANDLE}"
    by (rule mem_run_image_dom) (simp add: VkMultiGpuMemoryManager_new_def)
  from b i card_sub_singleton [OF b] card_sub_singleton [OF i] show ?thesis
    by (simp add: AllocateBuffer_def AllocateImage_def Let_def)
qed

section \<open>Queue family selection\<close>

lemma select_families_graphics:
  "graphicsQueueFamilyIndex (select_families i f g)
     = (if f AND VK_QUEUE_GRAPHICS_BIT \<noteq> 0 then i else graphicsQueueFamilyIndex g)"
  by (simp add: select_families_def Let_def)

lemma select_families_compute:
  "computeQueueFamilyIndex (select_families i f g)
     = (if f AND VK_QUEUE_COMPUTE_BIT \<noteq> 0 \<and> computeQueueFamilyIndex g = UINT32_MAX
        then i else computeQueueFamilyIndex g)"
  by (simp add: select_families_def Let_def)

lemma select_families_transfer:
  "transferQueueFamilyIndex (select_families i f g)
     = (if f AND VK_QUEUE_TRANSFER_BIT \<noteq> 0 \<and> transferQueueFamilyIndex g = UINT32_MAX
        then i else transferQueueFamilyIndex g)"
  by (simp add: select_families_def Let_def)

lemma below_count_not_sentinel:
  assumes "(i::u32) < n"
  shows "i \<noteq> UINT32_MAX"
proof
  assume "i = UINT32_MAX"
  then have "unat i = 2 ^ 32 - 1" by (simp add: UINT32_MAX_def)
  moreover have "unat i < unat n" using assms by (simp add: word_less_nat_alt)
  moreover have "unat n < 2 ^ 32" using unsigned_less [of n] by simp
  ultimately show False by simp
qed

lemma last_match_step:
  assumes "(i::u32) < n" and "last_match P (unat i) v"
  shows "last_match P (Suc (unat i)) (if P (unat i) then i else v)"
proof (cases "P (unat i)")
  case True
  with below_count_not_sentinel [OF assms(1)] show ?thesis
    by (auto simp: last_match_def)
next
  case False
  with assms(2) show ?thesis
    by (auto simp: last_match_def less_Suc_eq)
qed

lemma first_match_step:
  assumes "(i::u32) < n" and "first_match P (unat i) v"
  shows "first_match P (Suc (unat i)) (if P (unat i) \<and> v = UINT32_MAX then i else v)"
proof (cases "P (unat i) \<and> v = UINT32_MAX")
  case True
  with below_count_not_sentinel [OF assms(1)] assms(2) show ?thesis
    by (auto simp: first_match_def)
next
  case False
  with assms(2) show ?thesis
    by (auto simp: first_match_def less_Suc_eq)
qed

lemma select_loop_matches:
  assumes "i \<le> n"
    and "last_match (family_has fams VK_QUEUE_GRAPHICS_BIT) (unat i) (graphicsQueueFamilyIndex g)"
    and "first_match (family_has fams VK_QUEUE_COMPUTE_BIT) (unat i) (computeQueueFamilyIndex g)"
    and "first_match (family_has fams VK_QUEUE_TRANSFER_BIT) (unat i) (transferQueueFamilyIndex g)"
  shows "last_match (family_has fams VK_QUEUE_GRAPHICS_BIT) (unat n)
           (graphicsQueueFamilyIndex (select_loop i n fams g))
       \<and> first_match (family_has fams VK_QUEUE_COMPUTE_BIT) (unat n)
           (computeQueueFamilyIndex (select_loop i n fams g))
       \<and> first_match (family_has fams VK_QUEUE_TRANSFER_BIT) (unat n)
           (transferQueueFamilyIndex (select_loop i n fams g))"
  using assms
proof (induction i n fams g rule: select_loop.induct)
  case (1 i n fams g)
  show ?case
  proof (cases "i < n")
    case True
    let ?g = "select_families i (fams ! unat i) g"
    have next_i: "unat (i + 1) = Suc (unat i)" using True by (rule word_succ_unat)
    have le: "i + 1 \<le> n" using True by (rule inc_le)
    have a: "last_match (family_has fams VK_QUEUE_GRAPHICS_BIT) (unat (i + 1))
               (graphicsQueueFamilyIndex ?g)"
    proof -
      have "graphicsQueueFamilyIndex ?g
              = (if family_has fams VK_QUEUE_GRAPHICS_BIT (unat i)
                 then i else graphicsQueueFamilyIndex g)"
        by (simp add: select_families_graphics family_has_def)
      then show ?thesis
        using last_match_step [OF True "1.prems"(2)] by (simp only: next_i)
    qed
    have b: "first_match (family_has fams VK_QUEUE_COMPUTE_BIT) (unat (i + 1))
               (computeQueueFamilyIndex ?g)"
    proof -
      have "computeQueueFamilyIndex ?g
              = (if family_has fams VK_QUEUE_COMPUTE_BIT (unat i) \<and> computeQueueFamilyIndex g = UINT32_MAX
                 then i else computeQueueFamilyIndex g)"
        by (simp add: select_families_compute family_has_def)
      then show ?thesis
        using first_match_step [OF True "1.prems"(3)] by (simp only: next_i)
    qed
    have c: "first_match (family_has fams VK_QUEUE_TRANSFER_BIT) (unat (i + 1))
               (transferQueueFamilyIndex ?g)"
    proof -
      have "transferQueueFamilyIndex ?g
              = (if family_has fams VK_QUEUE_TRANSFER_BIT (unat i) \<and> transferQueueFamilyIndex g = UINT32_MAX
                 then i else transferQueueFamilyIndex g)"
        by (simp add: select_families_transfer family_has_def)
      then show ?thesis
        using first_match_step [OF True "1.prems"(4)] by (simp only: next_i)
    qed
    from "1.IH" [OF True le a b c] True show ?thesis
      by (subst (1 2 3) select_loop.simps) simp
  next
    case False
    with "1.prems"(1) have "i = n" by simp
    with "1.prems" show ?thesis
      by (subst (1 2 3) select_loop.simps) simp
  qed
qed

text \<open>
  Claim C5, as the code has it. For a device whose queue families fit a 32-bit count,
  \<open>SelectQueueFamilyIndices\<close> resolves the graphics family to the last enumerated family
  with the graphics capability, the compute family to the first enumerated family with the
  compute capability and the transfer family to the first enumerated family with the
  transfer capability, each search on its own: a family already taken for graphics (or
  compute) is not passed over. An index stays at the sentinel when no family carries the
  capability, and the device is rejected exactly when no family carries the graphics
  capability.
\<close>

theorem SelectQueueFamilyIndices_matches:
  assumes "length (pdQueueFlags device) < 2 ^ 32"
  shows "case SelectQueueFamilyIndices device gpuInfo of (found, g) \<Rightarrow>
           last_match (family_has (pdQueueFlags device) VK_QUEUE_GRAPHICS_BIT)
             (length (pdQueueFlags device)) (graphicsQueueFamilyIndex g)
         \<and> first_match (family_has (pdQueueFlags device) VK_QUEUE_COMPUTE_BIT)
             (length (pdQueueFlags device)) (computeQueueFamilyIndex g)
         \<and> first_match (family_has (pdQueueFlags device) VK_QUEUE_TRANSFER_BIT)
             (length (pdQueueFlags device)) (transferQueueFamilyIndex g)
         \<and> (found \<longleftrightarrow>
              (\<exists>j<length (pdQueueFlags device).
                 family_has (pdQueueFlags device) VK_QUEUE_GRAPHICS_BIT j))"
proof -
  let ?fams = "pdQueueFlags device"
  let ?n = "word_of_nat (length ?fams) :: u32"
  let ?g0 = "gpuInfo\<lparr>graphicsQueueFamilyIndex := UINT32_MAX,
                       computeQueueFamilyIndex := UINT32_MAX,
                       transferQueueFamilyIndex := UINT32_MAX\<rparr>"
  let ?g = "select_loop 0 ?n ?fams ?g0"
  have n: "unat ?n = length ?fams"
    using assms by (simp add: unat_of_nat)
  have m: "last_match (family_has ?fams VK_QUEUE_GRAPHICS_BIT) (unat ?n) (graphicsQueueFamilyIndex ?g)
       \<and> first_match (family_has ?fams VK_QUEUE_COMPUTE_BIT) (unat ?n) (computeQueueFamilyIndex ?g)
       \<and> first_match (family_has ?fams VK_QUEUE_TRANSFER_BIT) (unat ?n) (transferQueueFamilyIndex ?g)"
    by (rule select_loop_matches) (simp_all add: last_match_def first_match_def)
  then have "graphicsQueueFamilyIndex ?g \<noteq> UINT32_MAX
        \<longleftrightarrow> (\<exists>j<length ?fams. family_has ?fams VK_QUEUE_GRAPHICS_BIT j)"
    unfolding n last_match_def by blast
  with m show ?thesis
    by (simp add: SelectQueueFamilyIndices_def Let_def n)
qed

lemma select_sample_1_6_3:
  "SelectQueueFamilyIndices (sample_device [1, 6, 3]) blank_gpu
     = (True, blank_gpu\<lparr>graphicsQueueFamilyIndex := 2, computeQueueFamilyIndex := 1,
                        transferQueueFamilyIndex := 1\<rparr>)"
  by (simp add: SelectQueueFamilyIndices_def sample_device_def blank_gpu_def select_loop.simps
      select_families_def Let_def VK_QUEUE_GRAPHICS_BIT_def VK_QUEUE_COMPUTE_BIT_def
      VK_QUEUE_TRANSFER_BIT_def UINT32_MAX_def)

text \<open>
  The instance with the families graphics, compute+transfer, graphics+compute: graphics
  resolves to family 2, compute and transfer to family 1.
\<close>

theorem SelectQueueFamilyIndices_matches_witness:
  "length (pdQueueFlags (sample_device [1, 6, 3])) < 2 ^ 32
   \<and> last_match (family_has [1, 6, 3] VK_QUEUE_GRAPHICS_BIT) 3 2
   \<and> first_match (family_has [1, 6, 3] VK_QUEUE_COMPUTE_BIT) 3 1
   \<and> first_match (family_has [1, 6, 3] VK_QUEUE_TRANSFER_BIT) 3 1
   \<and> fst (SelectQueueFamilyIndices (sample_device [1, 6, 3]) blank_gpu)
   \<and> graphicsQueueFamilyIndex (snd (SelectQueueFamilyIndices (sample_device [1, 6, 3]) blank_gpu)) = 2
   \<and> computeQueueFamilyIndex (snd (SelectQueueFamilyIndices (sample_device [1, 6, 3]) blank_gpu)) = 1
   \<and> transferQueueFamilyIndex (snd (SelectQueueFamilyIndices (sample_device [1, 6, 3]) blank_gpu)) = 1"
proof -
  have h: "length (pdQueueFlags (sample_device [1, 6, 3])) < 2 ^ 32"
    by (simp add: sample_device_def)
  have f: "pdQueueFlags (sample_device [1, 6, 3]) = [1, 6, 3]"
    by (simp add: sample_device_def)
  from SelectQueueFamilyIndices_matches [OF h, of blank_gpu] h show ?thesis
    by (simp add: select_sample_1_6_3 f numeral_3_eq_3)
qed

text \<open>
  Claim C5 as stated fails: with the families graphics+compute+transfer, compute+transfer
  the graphics family is 0, and compute and transfer resolve to family 0 as well, although
  family 1 carries both capabilities and is not claimed by graphics.
\<close>

theorem compute_family_may_be_the_graphics_family:
  "graphicsQueueFamilyIndex (snd (SelectQueueFamilyIndices (sample_device [7, 6]) blank_gpu)) = 0
   \<and> computeQueueFamilyIndex (snd (SelectQueueFamilyIndices (sample_device [7, 6]) blank_gpu)) = 0
   \<and> transferQueueFamilyIndex (snd (SelectQueueFamilyIndices (sample_device [7, 6]) blank_gpu)) = 0
   \<and> family_has (pdQueueFlags (sample_device [7, 6])) VK_QUEUE_COMPUTE_BIT 1
   \<and> family_has (pdQueueFlags (sample_device [7, 6])) VK_QUEUE_TRANSFER_BIT 1"
  by (simp add: SelectQueueFamilyIndices_def sample_device_def blank_gpu_def select_loop.simps
      select_families_def Let_def VK_QUEUE_GRAPHICS_BIT_def VK_QUEUE_COMPUTE_BIT_def
      VK_QUEUE_TRANSFER_BIT_def UINT32_MAX_def family_has_def)

section \<open>Initialization\<close>

lemma init_loop_eq:
  "i \<le> n \<Longrightarrow> init_loop i n devs gpus =
     gpus @ List.map_filter (\<lambda>k. bring_up (word_of_nat k) (devs ! k)) [unat i..<unat n]"
proof (induction i n devs gpus rule: init_loop.induct)
  case (1 i n devs gpus)
  show ?case
  proof (cases "i < n")
    case True
    then have le: "i + 1 \<le> n" by (rule inc_le)
    from "1.IH" [OF True le] True show ?thesis
      by (subst init_loop.simps)
        (simp add: upt_unat_step [OF True] map_filter_simps split: option.split)
  next
    case False
    with "1.prems" have "i = n" by simp
    then show ?thesis by (subst init_loop.simps) (simp add: map_filter_simps)
  qed
qed

lemma length_map_filter:
  "length (List.map_filter f xs) = length (filter (\<lambda>x. f x \<noteq> None) xs)"
  by (induction xs) (simp_all add: map_filter_simps split: option.split)

lemma init_loop_length:
  "length (init_loop 0 n devs gpus)
     = length gpus + length (filter (comes_up devs) [0..<unat n])"
proof -
  have "comes_up devs = (\<lambda>k. bring_up (word_of_nat k) (devs ! k) \<noteq> None)"
    by (rule ext) (simp add: comes_up_def)
  then show ?thesis
    by (simp add: init_loop_eq length_map_filter)
qed

lemma unat_min: "unat (min (a::u32) b) = min (unat a) (unat b)"
  by (simp add: min_def word_le_nat_alt)

text \<open>
  Claim C6, as the code has it. On a registry that holds no device yet, and with a device
  list that fits a 32-bit count, the number of active devices after \<open>InitializeMultiGpu\<close>
  is the number of candidates, among the first \<open>min (desiredCount, available)\<close>
  enumerated devices, for which queue family selection and logical device creation both
  succeed. So the active count never exceeds \<open>min (desiredCount, available)\<close>, and equals
  it when every one of these candidates comes up. The call succeeds exactly when the active
  set is not empty, and fails when no device is enumerated.
\<close>

theorem InitializeMultiGpu_active_count:
  assumes "length (physicalDevices inst) < 2 ^ 32"
  shows "case InitializeMultiGpu VkMultiGpuManager_new inst desiredGpuCount of (ok, m) \<Rightarrow>
           length (gpuDevices m)
             = length (filter (comes_up (physicalDevices inst))
                         [0..<min (length (physicalDevices inst)) (unat desiredGpuCount)])
         \<and> GetActiveGpuCount m \<le> min (word_of_nat (length (physicalDevices inst))) desiredGpuCount
         \<and> ((\<forall>k<min (length (physicalDevices inst)) (unat desiredGpuCount).
                comes_up (physicalDevices inst) k)
              \<longrightarrow> GetActiveGpuCount m
                    = min (word_of_nat (length (physicalDevices inst))) desiredGpuCount)
         \<and> (ok \<longleftrightarrow> gpuDevices m \<noteq> [])
         \<and> (physicalDevices inst = [] \<longrightarrow> \<not> ok)"
proof -
  let ?devs = "physicalDevices inst"
  let ?n = "word_of_nat (length ?devs) :: u32"
  let ?k = "min (length ?devs) (unat desiredGpuCount)"
  let ?r = "InitializeMultiGpu VkMultiGpuManager_new inst desiredGpuCount"
  have n: "unat ?n = length ?devs"
    using assms by (simp add: unat_of_nat)
  have zero: "?n = 0 \<longleftrightarrow> ?devs = []"
    using n by (metis length_0_conv unat_eq_0)
  have k: "unat (min ?n desiredGpuCount) = ?k"
    by (simp add: unat_min n)
  have len: "length (gpuDevices (snd ?r)) = length (filter (comes_up ?devs) [0..<?k])"
  proof (cases "?devs = []")
    case True
    then show ?thesis
      by (simp add: InitializeMultiGpu_def VkMultiGpuManager_new_def Let_def)
  next
    case False
    then have "?n \<noteq> 0" by (simp add: zero)
    then show ?thesis
      by (simp add: InitializeMultiGpu_def VkMultiGpuManager_new_def Let_def
          init_loop_length k)
  qed
  have ok: "fst ?r \<longleftrightarrow> gpuDevices (snd ?r) \<noteq> []"
    by (simp add: InitializeMultiGpu_def VkMultiGpuManager_new_def Let_def)
  have empty: "?devs = [] \<longrightarrow> \<not> fst ?r"
    by (simp add: InitializeMultiGpu_def Let_def)
  have bound: "length (gpuDevices (snd ?r)) \<le> ?k"
    unfolding len using length_filter_le [of "comes_up ?devs" "[0..<?k]"] by simp
  have small: "?k < 2 ^ 32"
    using assms by simp
  have "length (gpuDevices (snd ?r)) < 2 ^ 32"
    using bound small by (rule le_less_trans)
  then have cnt: "unat (GetActiveGpuCount (snd ?r)) = length (gpuDevices (snd ?r))"
    by (simp add: GetActiveGpuCount_def unat_of_nat)
  have le: "GetActiveGpuCount (snd ?r) \<le> min ?n desiredGpuCount"
    using bound by (simp add: word_le_nat_alt cnt k)
  have all: "GetActiveGpuCount (snd ?r) = min ?n desiredGpuCount"
    if "\<forall>j<?k. comes_up ?devs j"
  proof -
    from that have "filter (comes_up ?devs) [0..<?k] = [0..<?k]"
      by (intro filter_True) simp
    then have "length (gpuDevices (snd ?r)) = ?k"
      by (simp add: len)
    then show ?thesis
      by (simp add: word_unat_eq_iff cnt k)
  qed
  from len le all ok empty show ?thesis
    by (simp add: case_prod_beta)
qed

text \<open>The instance with two devices that both come up and a desired count of 3.\<close>

theorem InitializeMultiGpu_active_count_witness:
  "length (physicalDevices (sample_instance [[1], [7]])) < 2 ^ 32
   \<and> comes_up (physicalDevices (sample_instance [[1], [7]])) 0
   \<and> comes_up (physicalDevices (sample_instance [[1], [7]])) 1
   \<and> fst (InitializeMultiGpu VkMultiGpuManager_new (sample_instance [[1], [7]]) 3)
   \<and> GetActiveGpuCount (snd (InitializeMultiGpu VkMultiGpuManager_new (sample_instance [[1], [7]]) 3)) = 2"
proof -
  let ?inst = "sample_instance [[1], [7]]"
  have h: "length (physicalDevices ?inst) < 2 ^ 32"
    by (simp add: sample_instance_def)
  have up: "comes_up (physicalDevices ?inst) 0" "comes_up (physicalDevices ?inst) 1"
    by (simp_all add: comes_up_def sample_instance_def bring_up_def SelectQueueFamilyIndices_def
        CreateLogicalDevice_def sample_device_def select_loop.simps select_families_def Let_def
        VK_QUEUE_GRAPHICS_BIT_def VK_QUEUE_COMPUTE_BIT_def VK_QUEUE_TRANSFER_BIT_def
        UINT32_MAX_def)
  have "min (length (physicalDevices ?inst)) (unat (3::u32)) = Suc (Suc 0)"
    by (simp add: sample_instance_def)
  then have all: "\<forall>k<min (length (physicalDevices ?inst)) (unat (3::u32)).
               comes_up (physicalDevices ?inst) k"
    using up by (simp only: less_Suc_eq) auto
  have two: "min (word_of_nat (length (physicalDevices ?inst))) (3::u32) = 2"
    by (simp add: sample_instance_def)
  from InitializeMultiGpu_active_count [OF h, of 3] all two
  have "GetActiveGpuCount (snd (InitializeMultiGpu VkMultiGpuManager_new ?inst 3)) = 2"
    and "fst (InitializeMultiGpu VkMultiGpuManager_new ?inst 3)
         \<longleftrightarrow> gpuDevices (snd (InitializeMultiGpu VkMultiGpuManager_new ?inst 3)) \<noteq> []"
    by (simp_all add: case_prod_beta)
  moreover from this(1)
  have "gpuDevices (snd (InitializeMultiGpu VkMultiGpuManager_new ?inst 3)) \<noteq> []"
    by (auto simp: GetActiveGpuCount_def)
  ultimately show ?thesis using h up by simp
qed

text \<open>
  Claim C6 as stated fails: with two devices enumerated, the second without a graphics
  family, and a desired count of 3, the active count is 1 and not the available count 2.
\<close>

theorem device_without_graphics_is_skipped:
  "length (physicalDevices (sample_instance [[1], [2]])) = 2
   \<and> GetActiveGpuCount (snd (InitializeMultiGpu VkMultiGpuManager_new (sample_instance [[1], [2]]) 3)) = 1"
  by (simp add: InitializeMultiGpu_def VkMultiGpuManager_new_def GetActiveGpuCount_def
      sample_instance_def init_loop.simps bring_up_def SelectQueueFamilyIndices_def
      CreateLogicalDevice_def sample_device_def select_loop.simps select_families_def Let_def
      VK_QUEUE_GRAPHICS_BIT_def VK_QUEUE_COMPUTE_BIT_def VK_QUEUE_TRANSFER_BIT_def
      UINT32_MAX_def)

section \<open>Indices out of range\<close>

lemma active_count_le_size: "unat (GetActiveGpuCount m) \<le> length (gpuDevices m)"
  by (simp add: GetActiveGpuCount_def unat_of_nat)

lemma out_of_range_iff:
  "length (gpuDevices m) \<le> unat idx
     \<longleftrightarrow> length (gpuDevices m) < 2 ^ 32 \<and> GetActiveGpuCount m \<le> idx"
proof
  assume h: "length (gpuDevices m) \<le> unat idx"
  have "unat idx < 2 ^ 32" using unsigned_less [of idx] by simp
  with h have small: "length (gpuDevices m) < 2 ^ 32" by simp
  then have "unat (GetActiveGpuCount m) = length (gpuDevices m)"
    by (simp add: GetActiveGpuCount_def unat_of_nat)
  with h small show "length (gpuDevices m) < 2 ^ 32 \<and> GetActiveGpuCount m \<le> idx"
    by (simp add: word_le_nat_alt)
next
  assume h: "length (gpuDevices m) < 2 ^ 32 \<and> GetActiveGpuCount m \<le> idx"
  then have "unat (GetActiveGpuCount m) = length (gpuDevices m)"
    by (simp add: GetActiveGpuCount_def unat_of_nat)
  with h show "length (gpuDevices m) \<le> unat idx"
    by (simp add: word_le_nat_alt)
qed

lemma synchronizer_sizes:
  "length (timelineSemaphores (sync_run (VkMultiGpuSynchronizer_new m) cs)) = unat (GetActiveGpuCount m)"
  "length (currentFrameIds (sync_run (VkMultiGpuSynchronizer_new m) cs)) = unat (GetActiveGpuCount m)"
  by (simp_all add: sync_run_semaphores_length sync_run_counters_length
      VkMultiGpuSynchronizer_new_def Let_def)

text \<open>
  Claim C7. Let the index be at least the number of active devices (by the lemma above: the
  device list fits a 32-bit count and the index is at least \<open>GetActiveGpuCount\<close>). Then
  \<open>GetGpuByIndex\<close> returns no device, \<open>SupportsAsyncComputeOnGpu\<close> returns false,
  \<open>AllocateMemory\<close> returns the null handle and \<open>FreeMemory\<close> returns, both without a
  call to the driver; and on a synchronizer built over this registry (now, or earlier when
  it held no more devices than now), after any sequence of calls, every call with this
  index returns the null handle where it returns a handle and leaves the synchronizer as it
  was. No call has a failing branch.
\<close>

theorem out_of_range_index_is_noop:
  assumes "length (gpuDevices m) \<le> unat idx"
    and "length (gpuDevices m0) \<le> length (gpuDevices m)"
  shows "GetGpuByIndex m idx = None
       \<and> \<not> SupportsAsyncComputeOnGpu m idx
       \<and> AllocateMemory drv m idx info = (VK_NULL_HANDLE, [])
       \<and> FreeMemory m idx mem = []
       \<and> (let s = sync_run (VkMultiGpuSynchronizer_new m0) cs in
            CreateTimelineSemaphore s idx v = (VK_NULL_HANDLE, s)
          \<and> DestroySemaphore s idx sem = s
          \<and> SignalFrameComplete s idx fid = s
          \<and> WaitForFrameComplete s idx fid = s
          \<and> InsertInterGpuBarrier s idx g a b = s
          \<and> InsertInterGpuBarrier s g idx a b = s
          \<and> CreateCrossGpuEvent s idx = (VK_NULL_HANDLE, s)
          \<and> SignalEvent s idx e = s
          \<and> WaitForEvent s idx e = s)"
proof -
  let ?s = "sync_run (VkMultiGpuSynchronizer_new m0) cs"
  have "unat (GetActiveGpuCount m0) \<le> unat idx"
    using assms active_count_le_size [of m0] by simp
  then have sem: "length (timelineSemaphores ?s) \<le> unat idx"
    and cnt: "length (currentFrameIds ?s) \<le> unat idx"
    by (simp_all add: synchronizer_sizes)
  have registry: "GetGpuByIndex m idx = None" "\<not> SupportsAsyncComputeOnGpu m idx"
    "AllocateMemory drv m idx info = (VK_NULL_HANDLE, [])" "FreeMemory m idx mem = []"
    using assms(1)
    by (simp_all add: GetGpuByIndex_def SupportsAsyncComputeOnGpu_def AllocateMemory_def
        FreeMemory_def)
  have sync: "CreateTimelineSemaphore ?s idx v = (VK_NULL_HANDLE, ?s)"
    "SignalFrameComplete ?s idx fid = ?s"
    using sem cnt by (simp_all add: CreateTimelineSemaphore_def SignalFrameComplete_def)
  have stubs: "DestroySemaphore ?s idx sem = ?s" "WaitForFrameComplete ?s idx fid = ?s"
    "InsertInterGpuBarrier ?s idx g a b = ?s" "InsertInterGpuBarrier ?s g idx a b = ?s"
    "CreateCrossGpuEvent ?s idx = (VK_NULL_HANDLE, ?s)" "SignalEvent ?s idx e = ?s"
    "WaitForEvent ?s idx e = ?s"
    by (simp_all add: DestroySemaphore_def WaitForFrameComplete_def InsertInterGpuBarrier_def
        CreateCrossGpuEvent_def SignalEvent_def WaitForEvent_def)
  from registry sync stubs show ?thesis
    by (simp only: Let_def simp_thms)
qed

text \<open>The instance with two active devices and the index 2.\<close>

theorem out_of_range_index_is_noop_witness:
  "length (gpuDevices (sample_manager [0, 1])) \<le> unat (2::u32)
   \<and> GetActiveGpuCount (sample_manager [0, 1]) \<le> 2
   \<and> GetGpuByIndex (sample_manager [0, 1]) 2 = None
   \<and> \<not> SupportsAsyncComputeOnGpu (sample_manager [0, 1]) 2
   \<and> AllocateMemory (\<lambda>dev info. 99) (sample_manager [0, 1]) 2
        \<lparr>allocationSize = 4096, memoryTypeIndex = 0\<rparr> = (VK_NULL_HANDLE, [])
   \<and> FreeMemory (sample_manager [0, 1]) 2 99 = []
   \<and> SignalFrameComplete
        (sync_run (VkMultiGpuSynchronizer_new (sample_manager [0, 1])) [OpSignalFrameComplete 1 4])
        2 7
      = sync_run (VkMultiGpuSynchronizer_new (sample_manager [0, 1])) [OpSignalFrameComplete 1 4]
   \<and> CreateTimelineSemaphore
        (sync_run (VkMultiGpuSynchronizer_new (sample_manager [0, 1])) [OpSignalFrameComplete 1 4])
        2 0
      = (VK_NULL_HANDLE,
         sync_run (VkMultiGpuSynchronizer_new (sample_manager [0, 1])) [OpSignalFrameComplete 1 4])"
proof -
  have h: "length (gpuDevices (sample_manager [0, 1])) \<le> unat (2::u32)"
    by (simp add: sample_manager_def)
  have c: "GetActiveGpuCount (sample_manager [0, 1]) \<le> 2"
    by (simp add: sample_manager_def GetActiveGpuCount_def)
  from h c out_of_range_index_is_noop
    [OF h order_refl, of "\<lambda>dev info. 99" "\<lparr>allocationSize = 4096, memoryTypeIndex = 0\<rparr>"
      99 "[OpSignalFrameComplete 1 4]" 0 0 7 0 0 0 0]
  show ?thesis
    by (simp only: Let_def simp_thms)
qed

end
